theory Spec2Isabelle
  imports Complex_Main "HOL-Library.Char_ord" "HOL-Library.List_Lexorder"
begin

section \<open>Library management API: the store, the gateway and the request handlers\<close>

text \<open>
  The service of \<^verbatim>\<open>src/app/api.py\<close> is a set of FastAPI handlers, each of which sends a
  fixed series of SQL statements to a MySQL store through \<^verbatim>\<open>execute_query\<close>. The model
  keeps that shape: the store is a record of tables (lists of rows), an SQL statement is
  a function on the store, \<^verbatim>\<open>execute_query\<close> runs one statement in a transaction of its
  own, and a handler threads the store through its gateway calls. A Python exception is
  a value of type \<open>exn\<close>; a handler returns the store it leaves behind together with
  either the exception that ended it or its response.
\<close>

subsection \<open>Exceptions and their HTTP status\<close>

datatype exn =
  HTTPException nat string
| RequestValidationError
| MySQLError string
| IntegrityError string
| ResponseValidationError
| TypeError
| KeyError

text \<open>
  \<^verbatim>\<open>http_exception_handler\<close> answers an \<^verbatim>\<open>HTTPException\<close> with its own status code,
  FastAPI answers a request that fails validation with 422, and
  \<^verbatim>\<open>general_exception_handler\<close> answers everything else with 500.
\<close>

fun status_code :: "exn \<Rightarrow> nat" where
  "status_code (HTTPException c detail) = c"
| "status_code RequestValidationError = 422"
| "status_code x = 500"

record StandardResponse =
  success :: bool
  message :: string
  data :: "(string \<times> int) list option"

text \<open>The status of a reply: the decorator's \<^verbatim>\<open>status_code\<close> (200 when none is given) on
  success, the exception's status otherwise.\<close>

definition http_status :: "nat \<Rightarrow> exn + 'a \<Rightarrow> nat" where
  "http_status ok r = (case r of Inl x \<Rightarrow> status_code x | Inr v \<Rightarrow> ok)"

subsection \<open>Tables\<close>

type_synonym date = int
type_synonym datetime = int

datatype loan_status = Active | Returned | Overdue | Lost | Damaged

text \<open>
  The columns of \<^verbatim>\<open>books\<close> that the handlers read or write. A column that
  \<^verbatim>\<open>create_book\<close> may fill with \<^verbatim>\<open>None\<close> is an option.
\<close>

record book =
  book_id :: int
  isbn :: string
  title :: string
  subtitle :: "string option"
  publication_date :: "date option"
  edition :: "int option"
  pages :: "int option"
  language :: "string option"
  book_condition :: "string option"
  location_shelf :: "string option"
  total_copies :: int
  available_copies :: int
  price :: "rat option"
  publisher_id :: "int option"
  category_id :: int
  updated_at :: datetime

record member =
  member_id :: int
  membership_number :: string
  first_name :: string
  last_name :: string
  date_of_birth :: "date option"
  gender :: "string option"
  email :: "string option"
  phone_number :: "string option"
  address :: "string option"
  city :: "string option"
  postal_code :: "string option"
  membership_type :: "string option"
  membership_start_date :: date
  membership_expiry_date :: date
  is_active :: bool
  max_books_allowed :: "int option"
  member_updated_at :: datetime

record loan_transaction =
  transaction_id :: int
  loan_member_id :: int
  loan_book_id :: int
  staff_id :: "int option"
  loan_date :: date
  due_date :: date
  return_date :: "date option"
  loan_status :: loan_status
  loan_notes :: "string option"
  loan_updated_at :: datetime

text \<open>
  Modelled from the spec: the schema of the store, which is not part of the sources. The
  tables are the ones the handlers name; \<open>book_authors\<close> rows are (book, author, role),
  \<open>categories\<close> and \<open>publishers\<close> rows are (id, name), \<open>authors\<close> rows are (id, first
  name, last name). The spec gives each entity an identity (\<^verbatim>\<open>book_id\<close>,
  \<^verbatim>\<open>member_id\<close>, \<^verbatim>\<open>transaction_id\<close>) that no \<^verbatim>\<open>INSERT\<close> of the handlers supplies;
  the three counters are the identities the store hands out next.
\<close>

record database =
  books :: "book list"
  members :: "member list"
  loan_transactions :: "loan_transaction list"
  book_authors :: "(int \<times> int \<times> string) list"
  categories :: "(int \<times> string) list"
  publishers :: "(int \<times> string) list"
  authors :: "(int \<times> string \<times> string) list"
  next_book_id :: int
  next_member_id :: int
  next_transaction_id :: int

subsection \<open>What a request depends on outside the sources\<close>

text \<open>
  \<open>fault k\<close> is the exception, if any, that the driver raises inside the \<open>k\<close>-th gateway
  call site of the handler (a lost connection, an exhausted pool, a constraint of the
  schema); \<open>now\<close> and \<open>today\<close> are \<^verbatim>\<open>NOW()\<close> and \<^verbatim>\<open>CURDATE()\<close> (and
  \<^verbatim>\<open>date.today()\<close>); \<open>last_insert_id\<close> is what \<^verbatim>\<open>SELECT LAST_INSERT_ID()\<close> reports on the
  pooled connection it happens to run on; \<open>like\<close> and \<open>collate_eq\<close> are the store's
  \<^verbatim>\<open>LIKE\<close> and \<^verbatim>\<open>=\<close> on strings under its collation.
\<close>

record env =
  fault :: "nat \<Rightarrow> exn option"
  now :: datetime
  today :: date
  last_insert_id :: int
  like :: "string \<Rightarrow> string \<Rightarrow> bool"
  collate_eq :: "string \<Rightarrow> string \<Rightarrow> bool"

subsection \<open>The persistence gateway\<close>

type_synonym 'r statement = "database \<Rightarrow> exn + (database \<times> 'r)"
type_synonym 'a action = "database \<Rightarrow> database \<times> (exn + 'a)"

definition return_action :: "'a \<Rightarrow> 'a action" where
  "return_action v d = (d, Inr v)"

definition raise :: "exn \<Rightarrow> 'a action" where
  "raise x d = (d, Inl x)"

definition bind :: "'a action \<Rightarrow> ('a \<Rightarrow> 'b action) \<Rightarrow> 'b action" where
  "bind m f d = (case m d of (d', Inl x) \<Rightarrow> (d', Inl x) | (d', Inr v) \<Rightarrow> f v d')"

text \<open>
  The two \<^verbatim>\<open>except\<close> clauses of \<^verbatim>\<open>execute_query\<close>: a \<^verbatim>\<open>mysql.connector.Error\<close>
  (\<^verbatim>\<open>IntegrityError\<close> is one) becomes a 500 with the driver's message, any other exception
  a 500 \<^verbatim>\<open>Internal server error\<close>.
\<close>

fun gateway_error :: "exn \<Rightarrow> exn" where
  "gateway_error (MySQLError msg) = HTTPException 500 (''Database error: '' @ msg)"
| "gateway_error (IntegrityError msg) = HTTPException 500 (''Database error: '' @ msg)"
| "gateway_error x = HTTPException 500 ''Internal server error''"

text \<open>
  \<^verbatim>\<open>execute_query\<close>: one statement on a connection of its own, committed when it
  succeeds and rolled back (the store stays as it was) when anything is raised.
\<close>

definition execute_query :: "exn option \<Rightarrow> 'r statement \<Rightarrow> 'r action" where
  "execute_query flt q d =
     (case flt of
        Some x \<Rightarrow> (d, Inl (gateway_error x))
      | None \<Rightarrow>
         (case q d of
            Inl x \<Rightarrow> (d, Inl (gateway_error x))
          | Inr (d', r) \<Rightarrow> (d', Inr r)))"

fun run_statements :: "'r statement list \<Rightarrow> database \<Rightarrow> exn + (database \<times> 'r list)" where
  "run_statements [] d = Inr (d, [])"
| "run_statements (q # qs) d =
     (case q d of
        Inl x \<Rightarrow> Inl x
      | Inr (d', r) \<Rightarrow>
         (case run_statements qs d' of
            Inl x \<Rightarrow> Inl x
          | Inr (d'', rs) \<Rightarrow> Inr (d'', r # rs)))"

text \<open>\<^verbatim>\<open>execute_transaction\<close>: the statements in order on one connection, one commit at the
  end, a rollback of all of them when any raises.\<close>

definition execute_transaction :: "exn option \<Rightarrow> 'r statement list \<Rightarrow> 'r list action" where
  "execute_transaction flt qs d =
     (case flt of
        Some x \<Rightarrow> (d, Inl (gateway_error x))
      | None \<Rightarrow>
         (case run_statements qs d of
            Inl x \<Rightarrow> (d, Inl (gateway_error x))
          | Inr (d', rs) \<Rightarrow> (d', Inr rs)))"

subsection \<open>The statements of the loan handlers\<close>

text \<open>\<^verbatim>\<open>SELECT available_copies FROM books WHERE book_id = %s\<close>, first row.\<close>

definition select_available_copies :: "int \<Rightarrow> int option statement" where
  "select_available_copies bid d =
     Inr (d, map_option available_copies (find (\<lambda>b. book_id b = bid) (books d)))"

text \<open>\<^verbatim>\<open>SELECT is_active, max_books_allowed FROM members WHERE member_id = %s\<close>, first row.\<close>

definition select_member_limits :: "int \<Rightarrow> (bool \<times> int option) option statement" where
  "select_member_limits mid d =
     Inr (d, map_option (\<lambda>m. (is_active m, max_books_allowed m))
               (find (\<lambda>m. member_id m = mid) (members d)))"

text \<open>\<^verbatim>\<open>SELECT COUNT(*) as count FROM loan_transactions WHERE member_id = %s AND
  loan_status = "Active"\<close>.\<close>

definition active_loans :: "database \<Rightarrow> int \<Rightarrow> int" where
  "active_loans d mid =
     int (length (filter (\<lambda>l. loan_member_id l = mid \<and> loan_status l = Active)
                    (loan_transactions d)))"

definition count_active_loans_of_member :: "int \<Rightarrow> int statement" where
  "count_active_loans_of_member mid d = Inr (d, active_loans d mid)"

text \<open>
  Modelled from the spec: the defaults of the columns that
  \<^verbatim>\<open>INSERT INTO loan_transactions (member_id, book_id, staff_id, loan_date, due_date,
  notes) VALUES (...)\<close> leaves out, which only the schema holds. The spec has the borrow
  operation insert the row with status Active and no return date; the row's timestamp is
  taken to be the time of the insert.
\<close>

definition new_loan ::
  "int \<Rightarrow> datetime \<Rightarrow> int \<Rightarrow> int \<Rightarrow> int option \<Rightarrow> date \<Rightarrow> date \<Rightarrow> string option
     \<Rightarrow> loan_transaction" where
  "new_loan tid t mid bid sid ld dd n =
     \<lparr>transaction_id = tid, loan_member_id = mid, loan_book_id = bid, staff_id = sid,
      loan_date = ld, due_date = dd, return_date = None, loan_status = Active,
      loan_notes = n, loan_updated_at = t\<rparr>"

definition insert_loan ::
  "datetime \<Rightarrow> int \<Rightarrow> int \<Rightarrow> int option \<Rightarrow> date \<Rightarrow> date \<Rightarrow> string option \<Rightarrow> nat statement" where
  "insert_loan t mid bid sid ld dd n d =
     Inr (d\<lparr>loan_transactions :=
              loan_transactions d @ [new_loan (next_transaction_id d) t mid bid sid ld dd n],
            next_transaction_id := next_transaction_id d + 1\<rparr>, 1)"

text \<open>\<^verbatim>\<open>UPDATE books SET available_copies = available_copies + k WHERE book_id = %s\<close>,
  with \<open>k\<close> either \<open>- 1\<close> (borrow) or \<open>1\<close> (return): the rows after the update, and
  the statement, whose result is the row count.\<close>

definition books_add_copies :: "int \<Rightarrow> int \<Rightarrow> book list \<Rightarrow> book list" where
  "books_add_copies k bid bs =
     map (\<lambda>b. if book_id b = bid then b\<lparr>available_copies := available_copies b + k\<rparr> else b) bs"

definition add_available_copies :: "int \<Rightarrow> int \<Rightarrow> nat statement" where
  "add_available_copies k bid d =
     Inr (d\<lparr>books := books_add_copies k bid (books d)\<rparr>,
          length (filter (\<lambda>b. book_id b = bid) (books d)))"

text \<open>\<^verbatim>\<open>SELECT * FROM loan_transactions WHERE transaction_id = %s AND loan_status =
  'Active'\<close>, first row.\<close>

definition select_active_loan :: "int \<Rightarrow> loan_transaction option statement" where
  "select_active_loan tid d =
     Inr (d, find (\<lambda>l. transaction_id l = tid \<and> loan_status l = Active)
               (loan_transactions d))"

text \<open>\<^verbatim>\<open>UPDATE loan_transactions SET loan_status = 'Returned', return_date = CURDATE(),
  updated_at = NOW() WHERE transaction_id = %s\<close>.\<close>

definition loans_mark_returned ::
  "date \<Rightarrow> datetime \<Rightarrow> int \<Rightarrow> loan_transaction list \<Rightarrow> loan_transaction list" where
  "loans_mark_returned day t tid ls =
     map (\<lambda>l. if transaction_id l = tid
              then l\<lparr>loan_status := Returned, return_date := Some day, loan_updated_at := t\<rparr>
              else l) ls"

definition mark_returned :: "date \<Rightarrow> datetime \<Rightarrow> int \<Rightarrow> nat statement" where
  "mark_returned day t tid d =
     Inr (d\<lparr>loan_transactions := loans_mark_returned day t tid (loan_transactions d)\<rparr>,
          length (filter (\<lambda>l. transaction_id l = tid) (loan_transactions d)))"

subsection \<open>Borrowing and returning\<close>

text \<open>The body of \<^verbatim>\<open>POST /api/loans\<close> as the client sends it: \<^verbatim>\<open>loan_date\<close> may be
  left out.\<close>

record LoanRequest =
  rq_member_id :: int
  rq_book_id :: int
  rq_staff_id :: "int option"
  rq_loan_date :: "date option"
  rq_due_date :: date
  rq_notes :: "string option"

text \<open>The validated model \<^verbatim>\<open>LoanCreate\<close>.\<close>

record LoanCreate =
  lc_member_id :: int
  lc_book_id :: int
  lc_staff_id :: "int option"
  lc_loan_date :: date
  lc_due_date :: date
  lc_notes :: "string option"

text \<open>
  Validation of the body into \<^verbatim>\<open>LoanCreate\<close>: \<^verbatim>\<open>member_id\<close> and \<^verbatim>\<open>book_id\<close> are
  \<^verbatim>\<open>gt=0\<close>, \<^verbatim>\<open>loan_date\<close> defaults to \<^verbatim>\<open>date.today()\<close>, and \<^verbatim>\<open>validate_due_date\<close>
  rejects \<^verbatim>\<open>due_date <= loan_date\<close>. Any failure is FastAPI's 422.
\<close>

definition validate_due_date :: "date \<Rightarrow> date \<Rightarrow> bool" where
  "validate_due_date v ld = (\<not> v \<le> ld)"

definition parse_LoanCreate :: "date \<Rightarrow> LoanRequest \<Rightarrow> exn + LoanCreate" where
  "parse_LoanCreate day rq =
     (let ld = (case rq_loan_date rq of None \<Rightarrow> day | Some v \<Rightarrow> v) in
      if rq_member_id rq > 0 \<and> rq_book_id rq > 0 \<and> validate_due_date (rq_due_date rq) ld
      then Inr \<lparr>lc_member_id = rq_member_id rq, lc_book_id = rq_book_id rq,
                lc_staff_id = rq_staff_id rq, lc_loan_date = ld,
                lc_due_date = rq_due_date rq, lc_notes = rq_notes rq\<rparr>
      else Inl RequestValidationError)"

definition create_loan :: "env \<Rightarrow> LoanCreate \<Rightarrow> StandardResponse action" where
  "create_loan e loan =
     bind (execute_query (fault e 0) (select_available_copies (lc_book_id loan))) (\<lambda>book.
     if (case book of None \<Rightarrow> True | Some copies \<Rightarrow> copies \<le> 0)
     then raise (HTTPException 400 ''Book is not available for loan'')
     else
     bind (execute_query (fault e 1) (select_member_limits (lc_member_id loan))) (\<lambda>member.
     case member of
       None \<Rightarrow> raise (HTTPException 404 ''Member not found'')
     | Some (active, limit) \<Rightarrow>
         if \<not> active then raise (HTTPException 400 ''Member account is not active'')
         else
         bind (execute_query (fault e 2) (count_active_loans_of_member (lc_member_id loan)))
           (\<lambda>current_loans.
         case limit of
           None \<Rightarrow> raise TypeError
         | Some max_allowed \<Rightarrow>
             if current_loans \<ge> max_allowed
             then raise (HTTPException 400 ''Member has reached maximum book loan limit'')
             else
             bind (execute_query (fault e 3)
                     (insert_loan (now e) (lc_member_id loan) (lc_book_id loan)
                        (lc_staff_id loan) (lc_loan_date loan) (lc_due_date loan)
                        (lc_notes loan))) (\<lambda>inserted.
             bind (execute_query (fault e 4) (add_available_copies (- 1) (lc_book_id loan)))
               (\<lambda>updated.
             return_action \<lparr>success = True, message = ''Book loan created successfully'',
                             data = None\<rparr>)))))"

text \<open>\<^verbatim>\<open>POST /api/loans\<close>: validation at the boundary, then the handler.\<close>

definition post_loans :: "env \<Rightarrow> LoanRequest \<Rightarrow> StandardResponse action" where
  "post_loans e rq =
     (case parse_LoanCreate (today e) rq of
        Inl x \<Rightarrow> raise x
      | Inr loan \<Rightarrow> create_loan e loan)"

text \<open>\<^verbatim>\<open>PUT /api/loans/{transaction_id}/return\<close>.\<close>

definition return_book :: "env \<Rightarrow> int \<Rightarrow> StandardResponse action" where
  "return_book e tid =
     bind (execute_query (fault e 0) (select_active_loan tid)) (\<lambda>loan.
     case loan of
       None \<Rightarrow> raise (HTTPException 404 ''Active loan not found'')
     | Some l \<Rightarrow>
         bind (execute_query (fault e 1) (mark_returned (today e) (now e) tid)) (\<lambda>updated.
         bind (execute_query (fault e 2) (add_available_copies 1 (loan_book_id l)))
           (\<lambda>updated'.
         return_action \<lparr>success = True, message = ''Book returned successfully'',
                         data = None\<rparr>)))"

subsection \<open>Request models of the book and member endpoints\<close>

text \<open>
  A field of an update model is either absent from the body, present with \<^verbatim>\<open>null\<close>, or
  present with a value; \<^verbatim>\<open>dict(exclude_unset=True)\<close> drops the first kind and the
  handlers' \<^verbatim>\<open>value is not None\<close> test drops the second.
\<close>

datatype 'a field = Unset | Null | Value 'a

text \<open>An entry of \<^verbatim>\<open>authors\<close>: the value under \<^verbatim>\<open>author_id\<close> and the one under
  \<^verbatim>\<open>role\<close>, \<open>None\<close> when the key is missing from the dictionary.\<close>

type_synonym author_entry = "int option \<times> string option"

record BookCreate =
  bc_isbn :: string
  bc_title :: string
  bc_subtitle :: "string option"
  bc_publication_date :: "date option"
  bc_edition :: "int option"
  bc_pages :: "int option"
  bc_language :: "string option"
  bc_book_condition :: "string option"
  bc_location_shelf :: "string option"
  bc_total_copies :: int
  bc_available_copies :: "int option"
  bc_price :: "rat option"
  bc_publisher_id :: "int option"
  bc_category_id :: int
  bc_authors :: "author_entry list"

definition book_conditions :: "string list" where
  "book_conditions = [''New'', ''Good'', ''Fair'', ''Poor'', ''Damaged'']"

text \<open>\<^verbatim>\<open>validate_available_copies\<close> of \<^verbatim>\<open>BookBase\<close>.\<close>

definition validate_available_copies :: "int option \<Rightarrow> int \<Rightarrow> bool" where
  "validate_available_copies v copies = (case v of None \<Rightarrow> True | Some a \<Rightarrow> \<not> a > copies)"

text \<open>The \<^verbatim>\<open>Field\<close> constraints of \<^verbatim>\<open>BookBase\<close> and its validator; a body that breaks
  one is answered with 422 before the handler runs.\<close>

definition valid_BookCreate :: "BookCreate \<Rightarrow> bool" where
  "valid_BookCreate b \<longleftrightarrow>
     10 \<le> length (bc_isbn b) \<and> length (bc_isbn b) \<le> 17 \<and>
     1 \<le> length (bc_title b) \<and> length (bc_title b) \<le> 200 \<and>
     pred_option (\<lambda>v. length v \<le> 200) (bc_subtitle b) \<and>
     pred_option (\<lambda>v. v \<ge> 1) (bc_edition b) \<and>
     pred_option (\<lambda>v. v > 0) (bc_pages b) \<and>
     pred_option (\<lambda>v. length v \<le> 30) (bc_language b) \<and>
     pred_option (\<lambda>v. v \<in> set book_conditions) (bc_book_condition b) \<and>
     pred_option (\<lambda>v. length v \<le> 20) (bc_location_shelf b) \<and>
     bc_total_copies b \<ge> 1 \<and>
     pred_option (\<lambda>v. v \<ge> 0) (bc_available_copies b) \<and>
     validate_available_copies (bc_available_copies b) (bc_total_copies b) \<and>
     pred_option (\<lambda>v. v \<ge> 0) (bc_price b) \<and>
     bc_category_id b > 0"

record BookUpdate =
  bu_isbn :: "string field"
  bu_title :: "string field"
  bu_subtitle :: "string field"
  bu_publication_date :: "date field"
  bu_edition :: "int field"
  bu_pages :: "int field"
  bu_language :: "string field"
  bu_book_condition :: "string field"
  bu_location_shelf :: "string field"
  bu_total_copies :: "int field"
  bu_available_copies :: "int field"
  bu_price :: "rat field"
  bu_publisher_id :: "int field"
  bu_category_id :: "int field"
  bu_authors :: "author_entry list field"

text \<open>The \<^verbatim>\<open>Field\<close> constraints of \<^verbatim>\<open>BookUpdate\<close>, which has no validator of its own.\<close>

definition valid_BookUpdate :: "BookUpdate \<Rightarrow> bool" where
  "valid_BookUpdate b \<longleftrightarrow>
     pred_field (\<lambda>v. 10 \<le> length v \<and> length v \<le> 17) (bu_isbn b) \<and>
     pred_field (\<lambda>v. 1 \<le> length v \<and> length v \<le> 200) (bu_title b) \<and>
     pred_field (\<lambda>v. length v \<le> 200) (bu_subtitle b) \<and>
     pred_field (\<lambda>v. v \<ge> 1) (bu_edition b) \<and>
     pred_field (\<lambda>v. v > 0) (bu_pages b) \<and>
     pred_field (\<lambda>v. length v \<le> 30) (bu_language b) \<and>
     pred_field (\<lambda>v. v \<in> set book_conditions) (bu_book_condition b) \<and>
     pred_field (\<lambda>v. length v \<le> 20) (bu_location_shelf b) \<and>
     pred_field (\<lambda>v. v \<ge> 1) (bu_total_copies b) \<and>
     pred_field (\<lambda>v. v \<ge> 0) (bu_available_copies b) \<and>
     pred_field (\<lambda>v. v \<ge> 0) (bu_price b) \<and>
     pred_field (\<lambda>v. v > 0) (bu_category_id b)"

record MemberCreate =
  mc_membership_number :: string
  mc_first_name :: string
  mc_last_name :: string
  mc_date_of_birth :: "date option"
  mc_gender :: "string option"
  mc_email :: "string option"
  mc_phone_number :: "string option"
  mc_address :: "string option"
  mc_city :: "string option"
  mc_postal_code :: "string option"
  mc_membership_type :: "string option"
  mc_membership_start_date :: date
  mc_membership_expiry_date :: date
  mc_max_books_allowed :: "int option"

definition genders :: "string list" where
  "genders = [''Male'', ''Female'', ''Other'']"

definition membership_types :: "string list" where
  "membership_types = [''Regular'', ''Student'', ''Senior'', ''Premium'']"

text \<open>
  The \<^verbatim>\<open>Field\<close> constraints of \<^verbatim>\<open>MemberBase\<close> with \<^verbatim>\<open>validate_expiry_date\<close> and
  \<^verbatim>\<open>validate_birth_date\<close>. The address syntax that \<^verbatim>\<open>EmailStr\<close> checks belongs to
  pydantic and is left open: every string is taken as an address.
\<close>

definition valid_MemberCreate :: "date \<Rightarrow> MemberCreate \<Rightarrow> bool" where
  "valid_MemberCreate day m \<longleftrightarrow>
     1 \<le> length (mc_membership_number m) \<and> length (mc_membership_number m) \<le> 20 \<and>
     1 \<le> length (mc_first_name m) \<and> length (mc_first_name m) \<le> 50 \<and>
     1 \<le> length (mc_last_name m) \<and> length (mc_last_name m) \<le> 50 \<and>
     pred_option (\<lambda>v. \<not> v > day) (mc_date_of_birth m) \<and>
     pred_option (\<lambda>v. v \<in> set genders) (mc_gender m) \<and>
     pred_option (\<lambda>v. length v \<le> 20) (mc_phone_number m) \<and>
     pred_option (\<lambda>v. length v \<le> 255) (mc_address m) \<and>
     pred_option (\<lambda>v. length v \<le> 50) (mc_city m) \<and>
     pred_option (\<lambda>v. length v \<le> 10) (mc_postal_code m) \<and>
     pred_option (\<lambda>v. v \<in> set membership_types) (mc_membership_type m) \<and>
     \<not> mc_membership_expiry_date m \<le> mc_membership_start_date m \<and>
     pred_option (\<lambda>v. v > 0) (mc_max_books_allowed m)"

record MemberUpdate =
  mu_membership_number :: "string field"
  mu_first_name :: "string field"
  mu_last_name :: "string field"
  mu_date_of_birth :: "date field"
  mu_gender :: "string field"
  mu_email :: "string field"
  mu_phone_number :: "string field"
  mu_address :: "string field"
  mu_city :: "string field"
  mu_postal_code :: "string field"
  mu_membership_type :: "string field"
  mu_membership_start_date :: "date field"
  mu_membership_expiry_date :: "date field"
  mu_is_active :: "bool field"
  mu_max_books_allowed :: "int field"

definition valid_MemberUpdate :: "MemberUpdate \<Rightarrow> bool" where
  "valid_MemberUpdate m \<longleftrightarrow>
     pred_field (\<lambda>v. 1 \<le> length v \<and> length v \<le> 20) (mu_membership_number m) \<and>
     pred_field (\<lambda>v. 1 \<le> length v \<and> length v \<le> 50) (mu_first_name m) \<and>
     pred_field (\<lambda>v. 1 \<le> length v \<and> length v \<le> 50) (mu_last_name m) \<and>
     pred_field (\<lambda>v. v \<in> set genders) (mu_gender m) \<and>
     pred_field (\<lambda>v. length v \<le> 20) (mu_phone_number m) \<and>
     pred_field (\<lambda>v. length v \<le> 255) (mu_address m) \<and>
     pred_field (\<lambda>v. length v \<le> 50) (mu_city m) \<and>
     pred_field (\<lambda>v. length v \<le> 10) (mu_postal_code m) \<and>
     pred_field (\<lambda>v. v \<in> set membership_types) (mu_membership_type m) \<and>
     pred_field (\<lambda>v. v > 0) (mu_max_books_allowed m)"

subsection \<open>The statements of the book and member handlers\<close>

text \<open>\<^verbatim>\<open>SELECT LAST_INSERT_ID()\<close>, always one row.\<close>

definition select_last_insert_id :: "env \<Rightarrow> int statement" where
  "select_last_insert_id e d = Inr (d, last_insert_id e)"

text \<open>\<^verbatim>\<open>SELECT book_id FROM books WHERE book_id = %s\<close> and
  \<^verbatim>\<open>SELECT member_id FROM members WHERE member_id = %s\<close>: is there a first row.\<close>

definition select_book_exists :: "int \<Rightarrow> bool statement" where
  "select_book_exists bid d = Inr (d, find (\<lambda>b. book_id b = bid) (books d) \<noteq> None)"

definition select_member_exists :: "int \<Rightarrow> bool statement" where
  "select_member_exists mid d = Inr (d, find (\<lambda>m. member_id m = mid) (members d) \<noteq> None)"

text \<open>
  Modelled from the spec: the unique keys of the schema, which the sources do not hold.
  The spec makes the ISBN of a book unique, and the membership number and the email of
  a member; a \<^verbatim>\<open>NULL\<close> email collides with nothing. A statement that would leave two
  rows with the same key is refused with \<^verbatim>\<open>mysql.connector.IntegrityError\<close>, whose
  message names the key (the exact text is the driver's).
\<close>

definition unique_books :: "book list \<Rightarrow> bool" where
  "unique_books bs = distinct (map isbn bs)"

definition unique_members :: "member list \<Rightarrow> exn option" where
  "unique_members ms =
     (if \<not> distinct (map membership_number ms)
      then Some (IntegrityError ''Duplicate entry for key membership_number'')
      else if \<not> distinct (List.map_filter email ms)
      then Some (IntegrityError ''Duplicate entry for key email'')
      else None)"

text \<open>\<^verbatim>\<open>INSERT INTO books (isbn, ..., category_id) VALUES (...)\<close>; the timestamp of the
  new row is taken to be the time of the insert.\<close>

definition new_book :: "int \<Rightarrow> datetime \<Rightarrow> BookCreate \<Rightarrow> int \<Rightarrow> book" where
  "new_book bid t b copies =
     \<lparr>book_id = bid, isbn = bc_isbn b, title = bc_title b, subtitle = bc_subtitle b,
      publication_date = bc_publication_date b, edition = bc_edition b, pages = bc_pages b,
      language = bc_language b, book_condition = bc_book_condition b,
      location_shelf = bc_location_shelf b, total_copies = bc_total_copies b,
      available_copies = copies, price = bc_price b, publisher_id = bc_publisher_id b,
      category_id = bc_category_id b, updated_at = t\<rparr>"

definition insert_book :: "datetime \<Rightarrow> BookCreate \<Rightarrow> int \<Rightarrow> nat statement" where
  "insert_book t b copies d =
     (let rows = books d @ [new_book (next_book_id d) t b copies] in
      if \<not> unique_books rows then Inl (IntegrityError ''Duplicate entry for key isbn'')
      else Inr (d\<lparr>books := rows, next_book_id := next_book_id d + 1\<rparr>, 1))"

text \<open>\<^verbatim>\<open>INSERT INTO book_authors (book_id, author_id, author_role) VALUES (%s, %s, %s)\<close>
  and \<^verbatim>\<open>DELETE FROM book_authors WHERE book_id = %s\<close>.\<close>

definition insert_book_author :: "int \<Rightarrow> int \<Rightarrow> string \<Rightarrow> nat statement" where
  "insert_book_author bid aid role d =
     Inr (d\<lparr>book_authors := book_authors d @ [(bid, aid, role)]\<rparr>, 1)"

definition delete_book_authors :: "int \<Rightarrow> nat statement" where
  "delete_book_authors bid d =
     Inr (d\<lparr>book_authors := filter (\<lambda>(b, a, r). b \<noteq> bid) (book_authors d)\<rparr>,
          length (filter (\<lambda>(b, a, r). b = bid) (book_authors d)))"

text \<open>The assignments of the \<^verbatim>\<open>SET\<close> clause that \<^verbatim>\<open>update_book\<close> builds, one per
  field that is set and not \<^verbatim>\<open>None\<close>.\<close>

datatype book_assignment =
  Set_isbn string
| Set_title string
| Set_subtitle string
| Set_publication_date date
| Set_edition int
| Set_pages int
| Set_language string
| Set_book_condition string
| Set_location_shelf string
| Set_total_copies int
| Set_available_copies int
| Set_price rat
| Set_publisher_id int
| Set_category_id int

fun assign_book :: "book_assignment \<Rightarrow> book \<Rightarrow> book" where
  "assign_book (Set_isbn v) b = b\<lparr>isbn := v\<rparr>"
| "assign_book (Set_title v) b = b\<lparr>title := v\<rparr>"
| "assign_book (Set_subtitle v) b = b\<lparr>subtitle := Some v\<rparr>"
| "assign_book (Set_publication_date v) b = b\<lparr>publication_date := Some v\<rparr>"
| "assign_book (Set_edition v) b = b\<lparr>edition := Some v\<rparr>"
| "assign_book (Set_pages v) b = b\<lparr>pages := Some v\<rparr>"
| "assign_book (Set_language v) b = b\<lparr>language := Some v\<rparr>"
| "assign_book (Set_book_condition v) b = b\<lparr>book_condition := Some v\<rparr>"
| "assign_book (Set_location_shelf v) b = b\<lparr>location_shelf := Some v\<rparr>"
| "assign_book (Set_total_copies v) b = b\<lparr>total_copies := v\<rparr>"
| "assign_book (Set_available_copies v) b = b\<lparr>available_copies := v\<rparr>"
| "assign_book (Set_price v) b = b\<lparr>price := Some v\<rparr>"
| "assign_book (Set_publisher_id v) b = b\<lparr>publisher_id := Some v\<rparr>"
| "assign_book (Set_category_id v) b = b\<lparr>category_id := v\<rparr>"

text \<open>One pass of the loop over \<^verbatim>\<open>dict(exclude_unset=True).items()\<close>: a field that is
  unset is not in the dictionary, a field that is \<^verbatim>\<open>None\<close> is skipped.\<close>

definition update_field :: "('a \<Rightarrow> 'c) \<Rightarrow> 'a field \<Rightarrow> 'c list" where
  "update_field assignment f =
     (case f of Unset \<Rightarrow> [] | Null \<Rightarrow> [] | Value v \<Rightarrow> [assignment v])"

definition book_update_fields :: "BookUpdate \<Rightarrow> book_assignment list" where
  "book_update_fields b =
     update_field Set_isbn (bu_isbn b) @
     update_field Set_title (bu_title b) @
     update_field Set_subtitle (bu_subtitle b) @
     update_field Set_publication_date (bu_publication_date b) @
     update_field Set_edition (bu_edition b) @
     update_field Set_pages (bu_pages b) @
     update_field Set_language (bu_language b) @
     update_field Set_book_condition (bu_book_condition b) @
     update_field Set_location_shelf (bu_location_shelf b) @
     update_field Set_total_copies (bu_total_copies b) @
     update_field Set_available_copies (bu_available_copies b) @
     update_field Set_price (bu_price b) @
     update_field Set_publisher_id (bu_publisher_id b) @
     update_field Set_category_id (bu_category_id b)"

text \<open>\<^verbatim>\<open>UPDATE books SET <assignments>, updated_at = NOW() WHERE book_id = %s\<close>.\<close>

definition books_set :: "book_assignment list \<Rightarrow> datetime \<Rightarrow> int \<Rightarrow> book list \<Rightarrow> book list" where
  "books_set sets t bid bs =
     map (\<lambda>b. if book_id b = bid then (fold assign_book sets b)\<lparr>updated_at := t\<rparr> else b) bs"

definition update_books_set :: "book_assignment list \<Rightarrow> datetime \<Rightarrow> int \<Rightarrow> nat statement" where
  "update_books_set sets t bid d =
     (let rows = books_set sets t bid (books d) in
      if \<not> unique_books rows then Inl (IntegrityError ''Duplicate entry for key isbn'')
      else Inr (d\<lparr>books := rows\<rparr>, length (filter (\<lambda>b. book_id b = bid) (books d))))"

text \<open>\<^verbatim>\<open>SELECT COUNT(*) as count FROM loan_transactions WHERE book_id = %s AND loan_status =
  "Active"\<close>.\<close>

definition count_active_loans_of_book :: "int \<Rightarrow> int statement" where
  "count_active_loans_of_book bid d =
     Inr (d, int (length (filter (\<lambda>l. loan_book_id l = bid \<and> loan_status l = Active)
                            (loan_transactions d))))"

text \<open>Modelled from the spec: the cascade of \<^verbatim>\<open>DELETE FROM books WHERE book_id = %s\<close>,
  which only the schema holds. The spec has the deletion of a book remove its authorship
  links (the handler's comment relies on the schema's \<^verbatim>\<open>CASCADE\<close>).\<close>

definition delete_from_books :: "int \<Rightarrow> nat statement" where
  "delete_from_books bid d =
     Inr (d\<lparr>books := filter (\<lambda>b. book_id b \<noteq> bid) (books d),
            book_authors := filter (\<lambda>(b, a, r). b \<noteq> bid) (book_authors d)\<rparr>,
          length (filter (\<lambda>b. book_id b = bid) (books d)))"

text \<open>
  Modelled from the spec: the default of \<^verbatim>\<open>is_active\<close>, which
  \<^verbatim>\<open>INSERT INTO members (membership_number, ..., max_books_allowed) VALUES (...)\<close>
  leaves to the schema. The spec's members are active until the soft delete marks them
  inactive, so the new row is active; its timestamp is taken to be the time of the insert.
\<close>

definition new_member :: "int \<Rightarrow> datetime \<Rightarrow> MemberCreate \<Rightarrow> member" where
  "new_member mid t m =
     \<lparr>member_id = mid, membership_number = mc_membership_number m,
      first_name = mc_first_name m, last_name = mc_last_name m,
      date_of_birth = mc_date_of_birth m, gender = mc_gender m, email = mc_email m,
      phone_number = mc_phone_number m, address = mc_address m, city = mc_city m,
      postal_code = mc_postal_code m, membership_type = mc_membership_type m,
      membership_start_date = mc_membership_start_date m,
      membership_expiry_date = mc_membership_expiry_date m, is_active = True,
      max_books_allowed = mc_max_books_allowed m, member_updated_at = t\<rparr>"

definition insert_member :: "datetime \<Rightarrow> MemberCreate \<Rightarrow> nat statement" where
  "insert_member t m d =
     (let rows = members d @ [new_member (next_member_id d) t m] in
      case unique_members rows of
        Some x \<Rightarrow> Inl x
      | None \<Rightarrow> Inr (d\<lparr>members := rows, next_member_id := next_member_id d + 1\<rparr>, 1))"

datatype member_assignment =
  Set_membership_number string
| Set_first_name string
| Set_last_name string
| Set_date_of_birth date
| Set_gender string
| Set_email string
| Set_phone_number string
| Set_address string
| Set_city string
| Set_postal_code string
| Set_membership_type string
| Set_membership_start_date date
| Set_membership_expiry_date date
| Set_is_active bool
| Set_max_books_allowed int

fun assign_member :: "member_assignment \<Rightarrow> member \<Rightarrow> member" where
  "assign_member (Set_membership_number v) m = m\<lparr>membership_number := v\<rparr>"
| "assign_member (Set_first_name v) m = m\<lparr>first_name := v\<rparr>"
| "assign_member (Set_last_name v) m = m\<lparr>last_name := v\<rparr>"
| "assign_member (Set_date_of_birth v) m = m\<lparr>date_of_birth := Some v\<rparr>"
| "assign_member (Set_gender v) m = m\<lparr>gender := Some v\<rparr>"
| "assign_member (Set_email v) m = m\<lparr>email := Some v\<rparr>"
| "assign_member (Set_phone_number v) m = m\<lparr>phone_number := Some v\<rparr>"
| "assign_member (Set_address v) m = m\<lparr>address := Some v\<rparr>"
| "assign_member (Set_city v) m = m\<lparr>city := Some v\<rparr>"
| "assign_member (Set_postal_code v) m = m\<lparr>postal_code := Some v\<rparr>"
| "assign_member (Set_membership_type v) m = m\<lparr>membership_type := Some v\<rparr>"
| "assign_member (Set_membership_start_date v) m = m\<lparr>membership_start_date := v\<rparr>"
| "assign_member (Set_membership_expiry_date v) m = m\<lparr>membership_expiry_date := v\<rparr>"
| "assign_member (Set_is_active v) m = m\<lparr>is_active := v\<rparr>"
| "assign_member (Set_max_books_allowed v) m = m\<lparr>max_books_allowed := Some v\<rparr>"

definition member_update_fields :: "MemberUpdate \<Rightarrow> member_assignment list" where
  "member_update_fields m =
     update_field Set_membership_number (mu_membership_number m) @
     update_field Set_first_name (mu_first_name m) @
     update_field Set_last_name (mu_last_name m) @
     update_field Set_date_of_birth (mu_date_of_birth m) @
     update_field Set_gender (mu_gender m) @
     update_field Set_email (mu_email m) @
     update_field Set_phone_number (mu_phone_number m) @
     update_field Set_address (mu_address m) @
     update_field Set_city (mu_city m) @
     update_field Set_postal_code (mu_postal_code m) @
     update_field Set_membership_type (mu_membership_type m) @
     update_field Set_membership_start_date (mu_membership_start_date m) @
     update_field Set_membership_expiry_date (mu_membership_expiry_date m) @
     update_field Set_is_active (mu_is_active m) @
     update_field Set_max_books_allowed (mu_max_books_allowed m)"

text \<open>\<^verbatim>\<open>UPDATE members SET <assignments>, updated_at = NOW() WHERE member_id = %s\<close>.\<close>

definition members_set ::
  "member_assignment list \<Rightarrow> datetime \<Rightarrow> int \<Rightarrow> member list \<Rightarrow> member list" where
  "members_set sets t mid ms =
     map (\<lambda>m. if member_id m = mid then (fold assign_member sets m)\<lparr>member_updated_at := t\<rparr>
              else m) ms"

definition update_members_set :: "member_assignment list \<Rightarrow> datetime \<Rightarrow> int \<Rightarrow> nat statement" where
  "update_members_set sets t mid d =
     (let rows = members_set sets t mid (members d) in
      case unique_members rows of
        Some x \<Rightarrow> Inl x
      | None \<Rightarrow> Inr (d\<lparr>members := rows\<rparr>, length (filter (\<lambda>m. member_id m = mid) (members d))))"

text \<open>\<^verbatim>\<open>UPDATE members SET is_active = 0, updated_at = NOW() WHERE member_id = %s\<close>.\<close>

definition deactivate_member :: "datetime \<Rightarrow> int \<Rightarrow> nat statement" where
  "deactivate_member t mid d =
     Inr (d\<lparr>members := map (\<lambda>m. if member_id m = mid
                                  then m\<lparr>is_active := False, member_updated_at := t\<rparr>
                                  else m) (members d)\<rparr>,
          length (filter (\<lambda>m. member_id m = mid) (members d)))"

subsection \<open>The book and member handlers\<close>

text \<open>\<^verbatim>\<open>str(e).lower()\<close> and the test \<^verbatim>\<open>"key" in ...\<close> of the two
  \<^verbatim>\<open>except mysql.connector.IntegrityError\<close> clauses.\<close>

definition lower_char :: "char \<Rightarrow> char" where
  "lower_char c =
     (let n = (of_char c :: nat) in if 65 \<le> n \<and> n \<le> 90 then char_of (n + 32) else c)"

definition lower :: "string \<Rightarrow> string" where
  "lower s = map lower_char s"

fun contains :: "string \<Rightarrow> string \<Rightarrow> bool" where
  "contains [] p = (p = [])"
| "contains (c # cs) p = (take (length p) (c # cs) = p \<or> contains cs p)"

text \<open>\<^verbatim>\<open>try: body except mysql.connector.IntegrityError as e: raise handler(e)\<close>: only an
  \<^verbatim>\<open>IntegrityError\<close> that leaves the body is caught.\<close>

definition except_IntegrityError :: "'a action \<Rightarrow> (string \<Rightarrow> exn) \<Rightarrow> 'a action" where
  "except_IntegrityError body handler d =
     (case body d of
        (d', Inl (IntegrityError msg)) \<Rightarrow> (d', Inl (handler msg))
      | (d', r) \<Rightarrow> (d', r))"

definition book_integrity_error :: "string \<Rightarrow> exn" where
  "book_integrity_error msg =
     (if contains (lower msg) ''isbn''
      then HTTPException 409 ''Book with this ISBN already exists''
      else HTTPException 400 ''Data integrity error'')"

definition member_integrity_error :: "string \<Rightarrow> exn" where
  "member_integrity_error msg =
     (if contains (lower msg) ''membership_number'' \<or> contains (lower msg) ''email''
      then HTTPException 409 ''Member with this membership number or email already exists''
      else HTTPException 400 ''Data integrity error'')"

text \<open>The loop \<^verbatim>\<open>for author in book.authors\<close>, one gateway call per entry from call
  site \<open>k\<close> on; \<^verbatim>\<open>author['author_id']\<close> raises \<^verbatim>\<open>KeyError\<close> when the key is missing,
  \<^verbatim>\<open>author.get('role', 'Primary Author')\<close> falls back to the default.\<close>

fun insert_authors :: "env \<Rightarrow> nat \<Rightarrow> int \<Rightarrow> author_entry list \<Rightarrow> unit action" where
  "insert_authors e k bid [] = return_action ()"
| "insert_authors e k bid ((author_id, role) # rest) =
     (case author_id of
        None \<Rightarrow> raise KeyError
      | Some aid \<Rightarrow>
          bind (execute_query (fault e k)
                  (insert_book_author bid aid
                     (case role of None \<Rightarrow> ''Primary Author'' | Some r \<Rightarrow> r))) (\<lambda>inserted.
          insert_authors e (Suc k) bid rest))"

definition create_book :: "env \<Rightarrow> BookCreate \<Rightarrow> StandardResponse action" where
  "create_book e book =
     except_IntegrityError
       (let copies = (case bc_available_copies book of
                        None \<Rightarrow> bc_total_copies book
                      | Some v \<Rightarrow> v) in
        bind (execute_transaction (fault e 0) [insert_book (now e) book copies]) (\<lambda>results.
        bind (execute_query (fault e 1) (select_last_insert_id e)) (\<lambda>new_id.
        bind (if bc_authors book \<noteq> [] then insert_authors e 2 new_id (bc_authors book)
              else return_action ()) (\<lambda>done.
        return_action \<lparr>success = True, message = ''Book created successfully'',
                        data = Some [(''book_id'', new_id)]\<rparr>))))
       book_integrity_error"

definition update_book :: "env \<Rightarrow> int \<Rightarrow> BookUpdate \<Rightarrow> StandardResponse action" where
  "update_book e bid book =
     bind (execute_query (fault e 0) (select_book_exists bid)) (\<lambda>existing_book.
     if \<not> existing_book then raise (HTTPException 404 ''Book not found'')
     else
     bind (let update_fields = book_update_fields book in
           if update_fields \<noteq> []
           then bind (execute_query (fault e 1) (update_books_set update_fields (now e) bid))
                  (\<lambda>updated. return_action ())
           else return_action ()) (\<lambda>done.
     bind (case bu_authors book of
             Unset \<Rightarrow> return_action ()
           | Null \<Rightarrow> return_action ()
           | Value entries \<Rightarrow>
               bind (execute_query (fault e 2) (delete_book_authors bid)) (\<lambda>deleted.
               insert_authors e 3 bid entries)) (\<lambda>done'.
     return_action \<lparr>success = True, message = ''Book updated successfully'',
                     data = None\<rparr>)))"

definition delete_book :: "env \<Rightarrow> int \<Rightarrow> StandardResponse action" where
  "delete_book e bid =
     bind (execute_query (fault e 0) (select_book_exists bid)) (\<lambda>existing_book.
     if \<not> existing_book then raise (HTTPException 404 ''Book not found'')
     else
     bind (execute_query (fault e 1) (count_active_loans_of_book bid)) (\<lambda>active.
     if active > 0 then raise (HTTPException 400 ''Cannot delete book with active loans'')
     else
     bind (execute_query (fault e 2) (delete_from_books bid)) (\<lambda>deleted.
     return_action \<lparr>success = True, message = ''Book deleted successfully'',
                     data = None\<rparr>)))"

definition create_member :: "env \<Rightarrow> MemberCreate \<Rightarrow> StandardResponse action" where
  "create_member e m =
     except_IntegrityError
       (bind (execute_query (fault e 0) (insert_member (now e) m)) (\<lambda>inserted.
        bind (execute_query (fault e 1) (select_last_insert_id e)) (\<lambda>new_id.
        return_action \<lparr>success = True, message = ''Member created successfully'',
                        data = Some [(''member_id'', new_id)]\<rparr>)))
       member_integrity_error"

definition update_member :: "env \<Rightarrow> int \<Rightarrow> MemberUpdate \<Rightarrow> StandardResponse action" where
  "update_member e mid m =
     bind (execute_query (fault e 0) (select_member_exists mid)) (\<lambda>existing_member.
     if \<not> existing_member then raise (HTTPException 404 ''Member not found'')
     else
     bind (let update_fields = member_update_fields m in
           if update_fields \<noteq> []
           then bind (execute_query (fault e 1) (update_members_set update_fields (now e) mid))
                  (\<lambda>updated. return_action ())
           else return_action ()) (\<lambda>done.
     return_action \<lparr>success = True, message = ''Member updated successfully'',
                     data = None\<rparr>))"

definition delete_member :: "env \<Rightarrow> int \<Rightarrow> StandardResponse action" where
  "delete_member e mid =
     bind (execute_query (fault e 0) (select_member_exists mid)) (\<lambda>existing_member.
     if \<not> existing_member then raise (HTTPException 404 ''Member not found'')
     else
     bind (execute_query (fault e 1) (count_active_loans_of_member mid)) (\<lambda>active.
     if active > 0
     then raise (HTTPException 400
                   ''Cannot delete member with active loans. Please return all books first.'')
     else
     bind (execute_query (fault e 2) (deactivate_member (now e) mid)) (\<lambda>updated.
     return_action \<lparr>success = True, message = ''Member deactivated successfully'',
                     data = None\<rparr>)))"

subsection \<open>The mutating endpoints\<close>

text \<open>A request to one of the mutating endpoints, with the body as the client sends it.\<close>

datatype request =
  POST_books BookCreate
| PUT_books int BookUpdate
| DELETE_books int
| POST_members MemberCreate
| PUT_members int MemberUpdate
| DELETE_members int
| POST_loans LoanRequest
| PUT_loans_return int

text \<open>FastAPI validates the body against the handler's model and answers 422 without
  calling the handler when it does not fit.\<close>

fun endpoint :: "env \<Rightarrow> request \<Rightarrow> StandardResponse action" where
  "endpoint e (POST_books b) =
     (if valid_BookCreate b then create_book e b else raise RequestValidationError)"
| "endpoint e (PUT_books bid b) =
     (if valid_BookUpdate b then update_book e bid b else raise RequestValidationError)"
| "endpoint e (DELETE_books bid) = delete_book e bid"
| "endpoint e (POST_members m) =
     (if valid_MemberCreate (today e) m then create_member e m
      else raise RequestValidationError)"
| "endpoint e (PUT_members mid m) =
     (if valid_MemberUpdate m then update_member e mid m else raise RequestValidationError)"
| "endpoint e (DELETE_members mid) = delete_member e mid"
| "endpoint e (POST_loans rq) = post_loans e rq"
| "endpoint e (PUT_loans_return tid) = return_book e tid"

text \<open>The decorator's status for a successful reply.\<close>

fun success_status :: "request \<Rightarrow> nat" where
  "success_status (POST_books b) = 201"
| "success_status (POST_members m) = 201"
| "success_status (POST_loans rq) = 201"
| "success_status r = 200"

text \<open>A run of the service: requests served one after the other, each in its own
  environment; the store that is left.\<close>

fun serve :: "(env \<times> request) list \<Rightarrow> database \<Rightarrow> database" where
  "serve [] d = d"
| "serve ((e, r) # rest) d = serve rest (fst (endpoint e r d))"

subsection \<open>Listing books\<close>

record BookResponse =
  br_book :: book
  category_name :: "string option"
  publisher_name :: "string option"
  author_list :: "string option"

record PaginationResponse =
  pg_page :: int
  pg_limit :: int
  pg_total :: int
  pg_pages :: int

record BookListResponse =
  bl_success :: bool
  bl_data :: "BookResponse list"
  pagination :: PaginationResponse

text \<open>
  The rows of \<^verbatim>\<open>books b LEFT JOIN categories c LEFT JOIN publishers p LEFT JOIN
  book_authors ba LEFT JOIN authors a\<close>: the book, its category name, its publisher name
  and \<^verbatim>\<open>CONCAT(a.first_name, ' ', a.last_name)\<close>, which is \<^verbatim>\<open>NULL\<close> on a row without an
  author. Category and publisher are looked up by their identity.
\<close>

type_synonym joined_book = "book \<times> string option \<times> string option \<times> string option"

definition author_names :: "database \<Rightarrow> int \<Rightarrow> string option list" where
  "author_names d bid =
     (let links = filter (\<lambda>(b, a, r). b = bid) (book_authors d) in
      if links = [] then [None]
      else concat (map (\<lambda>(b, aid, r).
             (let found = filter (\<lambda>(i, f, l). i = aid) (authors d) in
              if found = [] then [None]
              else map (\<lambda>(i, f, l). Some (f @ '' '' @ l)) found)) links))"

definition joined_books :: "database \<Rightarrow> joined_book list" where
  "joined_books d =
     concat (map (\<lambda>b. map (\<lambda>a. (b, map_of (categories d) (category_id b),
                                  (case publisher_id b of
                                     None \<Rightarrow> None
                                   | Some p \<Rightarrow> map_of (publishers d) p), a))
                        (author_names d (book_id b))) (books d))"

text \<open>The \<^verbatim>\<open>WHERE\<close> clause that \<^verbatim>\<open>get_books\<close> assembles: \<^verbatim>\<open>if search\<close> and
  \<^verbatim>\<open>if category\<close> skip a parameter that is absent or empty.\<close>

definition books_where ::
  "env \<Rightarrow> string option \<Rightarrow> string option \<Rightarrow> bool option \<Rightarrow> joined_book \<Rightarrow> bool" where
  "books_where e search category available =
     (\<lambda>(b, c, p, a).
        (case search of
           None \<Rightarrow> True
         | Some s \<Rightarrow>
             s = [] \<or>
             (let search_param = ''%'' @ s @ ''%'' in
              like e (title b) search_param \<or> like e (isbn b) search_param \<or>
              (case a of None \<Rightarrow> False | Some n \<Rightarrow> like e n search_param))) \<and>
        (case category of
           None \<Rightarrow> True
         | Some cat \<Rightarrow>
             cat = [] \<or> (case c of None \<Rightarrow> False | Some cn \<Rightarrow> collate_eq e cn cat)) \<and>
        (case available of
           None \<Rightarrow> True
         | Some av \<Rightarrow> if av then available_copies b > 0 else available_copies b = 0))"

text \<open>\<^verbatim>\<open>GROUP_CONCAT(... SEPARATOR ', ')\<close> over the names of a group that are not
  \<^verbatim>\<open>NULL\<close>.\<close>

definition group_concat :: "string option list \<Rightarrow> string option" where
  "group_concat xs =
     (case List.map_filter id xs of
        [] \<Rightarrow> None
      | n # ns \<Rightarrow> Some (foldl (\<lambda>acc x. acc @ '', '' @ x) n ns))"

text \<open>\<^verbatim>\<open>GROUP BY b.book_id\<close>: one row per book identity, with the columns of the group's
  first row and the names of the whole group.\<close>

function group_by_book_id :: "joined_book list \<Rightarrow> BookResponse list" where
  "group_by_book_id [] = []"
| "group_by_book_id ((b, c, p, a) # rest) =
     \<lparr>br_book = b, category_name = c, publisher_name = p,
      author_list = group_concat
        (a # map (\<lambda>(b', c', p', a'). a')
               (filter (\<lambda>(b', c', p', a'). book_id b' = book_id b) rest))\<rparr>
     # group_by_book_id (filter (\<lambda>(b', c', p', a'). book_id b' \<noteq> book_id b) rest)"
  by pat_completeness auto
termination
  by (relation "measure length") (auto simp: less_Suc_eq_le)

text \<open>The rows that match, in the order of the listing:
  \<^verbatim>\<open>... WHERE ... GROUP BY b.book_id ORDER BY b.title\<close>.\<close>

definition matching_books ::
  "env \<Rightarrow> string option \<Rightarrow> string option \<Rightarrow> bool option \<Rightarrow> database \<Rightarrow> BookResponse list" where
  "matching_books e search category available d =
     sort_key (\<lambda>r. title (br_book r))
       (group_by_book_id (filter (books_where e search category available) (joined_books d)))"

text \<open>The page query: the matching rows under \<^verbatim>\<open>LIMIT %s OFFSET %s\<close>.\<close>

definition select_books_page ::
  "env \<Rightarrow> string option \<Rightarrow> string option \<Rightarrow> bool option \<Rightarrow> int \<Rightarrow> int
     \<Rightarrow> BookResponse list statement" where
  "select_books_page e search category available limit offset d =
     Inr (d, take (nat limit) (drop (nat offset)
               (matching_books e search category available d)))"

text \<open>The count query: \<^verbatim>\<open>SELECT COUNT(DISTINCT b.book_id) as total ...\<close> under the same
  \<^verbatim>\<open>WHERE\<close> clause.\<close>

definition select_books_count ::
  "env \<Rightarrow> string option \<Rightarrow> string option \<Rightarrow> bool option \<Rightarrow> int statement" where
  "select_books_count e search category available d =
     Inr (d, int (length (remdups (map (\<lambda>(b, c, p, a). book_id b)
                    (filter (books_where e search category available) (joined_books d))))))"

text \<open>\<^verbatim>\<open>BookResponse(**book)\<close> refuses a row whose \<^verbatim>\<open>edition\<close>, \<^verbatim>\<open>language\<close> or
  \<^verbatim>\<open>book_condition\<close> is \<^verbatim>\<open>None\<close>: the model declares them without \<^verbatim>\<open>Optional\<close>.\<close>

definition valid_BookResponse :: "BookResponse \<Rightarrow> bool" where
  "valid_BookResponse r \<longleftrightarrow>
     edition (br_book r) \<noteq> None \<and> language (br_book r) \<noteq> None \<and>
     book_condition (br_book r) \<noteq> None"

definition get_books ::
  "env \<Rightarrow> int \<Rightarrow> int \<Rightarrow> string option \<Rightarrow> string option \<Rightarrow> bool option
     \<Rightarrow> BookListResponse action" where
  "get_books e page limit search category available =
     (let offset = (page - 1) * limit in
      bind (execute_query (fault e 0)
              (select_books_page e search category available limit offset)) (\<lambda>rows.
      bind (execute_query (fault e 1)
              (select_books_count e search category available)) (\<lambda>total.
      if \<not> list_all valid_BookResponse rows then raise ResponseValidationError
      else return_action
             \<lparr>bl_success = True, bl_data = rows,
              pagination = \<lparr>pg_page = page, pg_limit = limit, pg_total = total,
                            pg_pages = (total + limit - 1) div limit\<rparr>\<rparr>)))"

text \<open>\<^verbatim>\<open>GET /api/books\<close>: \<^verbatim>\<open>page\<close> is \<^verbatim>\<open>ge=1\<close>, \<^verbatim>\<open>limit\<close> is \<^verbatim>\<open>ge=1, le=100\<close>.\<close>

definition GET_books ::
  "env \<Rightarrow> int \<Rightarrow> int \<Rightarrow> string option \<Rightarrow> string option \<Rightarrow> bool option
     \<Rightarrow> BookListResponse action" where
  "GET_books e page limit search category available =
     (if page \<ge> 1 \<and> limit \<ge> 1 \<and> limit \<le> 100
      then get_books e page limit search category available
      else raise RequestValidationError)"

subsection \<open>The specification's vocabulary\<close>

text \<open>The failures that the specification names, as the replies the handlers give.\<close>

definition InvalidInput :: exn where
  "InvalidInput = RequestValidationError"

definition BookUnavailable :: exn where
  "BookUnavailable = HTTPException 400 ''Book is not available for loan''"

definition MemberNotFound :: exn where
  "MemberNotFound = HTTPException 404 ''Member not found''"

definition MemberInactive :: exn where
  "MemberInactive = HTTPException 400 ''Member account is not active''"

definition LoanLimitExceeded :: exn where
  "LoanLimitExceeded = HTTPException 400 ''Member has reached maximum book loan limit''"

definition LoanNotFound :: exn where
  "LoanNotFound = HTTPException 404 ''Active loan not found''"

text \<open>The book and the member that an identity denotes (the row a lookup returns), and
  the number of copies of a book that can be lent.\<close>

definition the_book :: "database \<Rightarrow> int \<Rightarrow> book option" where
  "the_book d bid = find (\<lambda>b. book_id b = bid) (books d)"

definition the_member :: "database \<Rightarrow> int \<Rightarrow> member option" where
  "the_member d mid = find (\<lambda>m. member_id m = mid) (members d)"

definition copies_available :: "database \<Rightarrow> int \<Rightarrow> int option" where
  "copies_available d bid = map_option available_copies (the_book d bid)"

text \<open>
  The preconditions of \<^verbatim>\<open>BorrowBook\<close> in the words and the order of the specification:
  the first one that fails, if any. (The specification does not say what a member
  without a \<^verbatim>\<open>max_books_allowed\<close> may borrow; no rejection is named for that case.)
\<close>

definition borrow_rejection :: "date \<Rightarrow> LoanRequest \<Rightarrow> database \<Rightarrow> exn option" where
  "borrow_rejection day rq d =
     (let loanDate = (case rq_loan_date rq of None \<Rightarrow> day | Some v \<Rightarrow> v) in
      if \<not> rq_due_date rq > loanDate then Some InvalidInput
      else
        (case the_book d (rq_book_id rq) of
           None \<Rightarrow> Some BookUnavailable
         | Some b \<Rightarrow>
             if \<not> available_copies b > 0 then Some BookUnavailable
             else
               (case the_member d (rq_member_id rq) of
                  None \<Rightarrow> Some MemberNotFound
                | Some m \<Rightarrow>
                    if \<not> is_active m then Some MemberInactive
                    else
                      (case max_books_allowed m of
                         None \<Rightarrow> None
                       | Some limit \<Rightarrow>
                           if \<not> active_loans d (rq_member_id rq) < limit
                           then Some LoanLimitExceeded
                           else None))))"

subsection \<open>A small library\<close>

text \<open>The scenario of the specification: a book with three copies, all on the shelf, and
  a member who may hold one book; an environment in which nothing fails.\<close>

definition calm :: env where
  "calm = \<lparr>fault = (\<lambda>k. None), now = 1000, today = 100, last_insert_id = 0,
           like = (\<lambda>s p. False), collate_eq = (\<lambda>s t. s = t)\<rparr>"

definition book_B :: book where
  "book_B = \<lparr>book_id = 1, isbn = ''9780000000001'', title = ''Emma'', subtitle = None,
             publication_date = None, edition = Some 1, pages = None,
             language = Some ''English'', book_condition = Some ''New'',
             location_shelf = None, total_copies = 3, available_copies = 3, price = None,
             publisher_id = None, category_id = 1, updated_at = 0\<rparr>"

definition member_M :: member where
  "member_M = \<lparr>member_id = 1, membership_number = ''M001'', first_name = ''Ada'',
               last_name = ''Lovelace'', date_of_birth = None, gender = None, email = None,
               phone_number = None, address = None, city = None, postal_code = None,
               membership_type = Some ''Regular'', membership_start_date = 0,
               membership_expiry_date = 365, is_active = True,
               max_books_allowed = Some 1, member_updated_at = 0\<rparr>"

definition library :: database where
  "library = \<lparr>books = [book_B], members = [member_M], loan_transactions = [],
              book_authors = [], categories = [(1, ''Fiction'')], publishers = [],
              authors = [], next_book_id = 2, next_member_id = 2,
              next_transaction_id = 1\<rparr>"

definition borrow_B :: LoanRequest where
  "borrow_B = \<lparr>rq_member_id = 1, rq_book_id = 1, rq_staff_id = None,
               rq_loan_date = Some 100, rq_due_date = 114, rq_notes = None\<rparr>"

text \<open>Requests for the scenario: an update that supplies nothing, a book whose ISBN is the
  one of the book on the shelf, and a member whose membership number is taken.\<close>

definition no_book_changes :: BookUpdate where
  "no_book_changes =
     \<lparr>bu_isbn = Unset, bu_title = Unset, bu_subtitle = Unset, bu_publication_date = Unset,
      bu_edition = Unset, bu_pages = Unset, bu_language = Unset, bu_book_condition = Unset,
      bu_location_shelf = Unset, bu_total_copies = Unset, bu_available_copies = Unset,
      bu_price = Unset, bu_publisher_id = Unset, bu_category_id = Unset,
      bu_authors = Unset\<rparr>"

definition no_member_changes :: MemberUpdate where
  "no_member_changes =
     \<lparr>mu_membership_number = Unset, mu_first_name = Unset, mu_last_name = Unset,
      mu_date_of_birth = Unset, mu_gender = Unset, mu_email = Unset,
      mu_phone_number = Unset, mu_address = Unset, mu_city = Unset, mu_postal_code = Unset,
      mu_membership_type = Unset, mu_membership_start_date = Unset,
      mu_membership_expiry_date = Unset, mu_is_active = Unset,
      mu_max_books_allowed = Unset\<rparr>"

definition second_copy :: BookCreate where
  "second_copy =
     \<lparr>bc_isbn = ''9780000000001'', bc_title = ''Emma again'', bc_subtitle = None,
      bc_publication_date = None, bc_edition = Some 1, bc_pages = None,
      bc_language = Some ''English'', bc_book_condition = Some ''New'',
      bc_location_shelf = None, bc_total_copies = 1, bc_available_copies = None,
      bc_price = None, bc_publisher_id = None, bc_category_id = 1, bc_authors = []\<rparr>"

definition second_card :: MemberCreate where
  "second_card =
     \<lparr>mc_membership_number = ''M001'', mc_first_name = ''Grace'', mc_last_name = ''Hopper'',
      mc_date_of_birth = None, mc_gender = None, mc_email = None, mc_phone_number = None,
      mc_address = None, mc_city = None, mc_postal_code = None,
      mc_membership_type = Some ''Regular'', mc_membership_start_date = 0,
      mc_membership_expiry_date = 365, mc_max_books_allowed = Some 5\<rparr>"

text \<open>An environment in which the gateway call at site \<open>k\<close> loses its connection and
  every other call goes through.\<close>

definition failing_at :: "nat \<Rightarrow> env" where
  "failing_at k =
     calm\<lparr>fault := (\<lambda>i. if i = k then Some (MySQLError ''Lost connection'') else None)\<rparr>"

text \<open>The same library with a member who may hold five books.\<close>

definition generous_library :: database where
  "generous_library = library\<lparr>members := [member_M\<lparr>max_books_allowed := Some 5\<rparr>]\<rparr>"

text \<open>A catalogue of ninety-five books, numbered 1 to 95, none with an author on
  record.\<close>

definition two_digits :: "nat \<Rightarrow> string" where
  "two_digits n = [char_of (48 + n div 10), char_of (48 + n mod 10)]"

definition catalogue :: database where
  "catalogue =
     library\<lparr>books := map (\<lambda>i. book_B\<lparr>book_id := int i,
                                        isbn := ''97800000000'' @ two_digits i\<rparr>) [1..<96],
             next_book_id := 96\<rparr>"

subsection \<open>Predicates on the store\<close>

text \<open>The specification's invariant on copies: \<open>0 \<le> available_copies \<le> total_copies\<close> for
  every book.\<close>

definition copies_in_range :: "database \<Rightarrow> bool" where
  "copies_in_range d =
     list_all (\<lambda>b. 0 \<le> available_copies b \<and> available_copies b \<le> total_copies b) (books d)"

text \<open>Every request of a run is answered with success.\<close>

fun all_succeed :: "(env \<times> request) list \<Rightarrow> database \<Rightarrow> bool" where
  "all_succeed [] d = True"
| "all_succeed ((e, r) # rest) d =
     (case endpoint e r d of
        (d', Inl x) \<Rightarrow> False
      | (d', Inr v) \<Rightarrow> all_succeed rest d')"

text \<open>The gateway calls of a return (three call sites) all reach the store.\<close>

definition return_unhindered :: "env \<Rightarrow> bool" where
  "return_unhindered e \<longleftrightarrow> fault e 0 = None \<and> fault e 1 = None \<and> fault e 2 = None"

text \<open>The identities the store has handed out lie below the ones it hands out next: the
  transaction identities, and the member identities of member rows and of loans; member
  identities are not shared between rows.\<close>

definition fresh_transaction_ids :: "database \<Rightarrow> bool" where
  "fresh_transaction_ids d =
     list_all (\<lambda>l. transaction_id l < next_transaction_id d) (loan_transactions d)"

definition member_ids_ok :: "database \<Rightarrow> bool" where
  "member_ids_ok d \<longleftrightarrow>
     distinct (map member_id (members d)) \<and>
     list_all (\<lambda>m. member_id m < next_member_id d) (members d) \<and>
     list_all (\<lambda>l. loan_member_id l < next_member_id d) (loan_transactions d)"

text \<open>The part of the store that the loan limits are about.\<close>

definition lending :: "database \<Rightarrow> member list \<times> loan_transaction list \<times> int" where
  "lending d = (members d, loan_transactions d, next_member_id d)"

text \<open>No member holds more Active loans than \<^verbatim>\<open>max_books_allowed\<close>.\<close>

definition within_limits :: "database \<Rightarrow> bool" where
  "within_limits d =
     list_all (\<lambda>m. case max_books_allowed m of
                     None \<Rightarrow> True
                   | Some limit \<Rightarrow> active_loans d (member_id m) \<le> limit) (members d)"

text \<open>A run in which no member update sets \<^verbatim>\<open>max_books_allowed\<close> below the number of
  Active loans that the member holds when the request arrives.\<close>

definition keeps_limit :: "request \<Rightarrow> database \<Rightarrow> bool" where
  "keeps_limit r d =
     (case r of
        PUT_members mid u \<Rightarrow>
          (case mu_max_books_allowed u of
             Value limit \<Rightarrow> active_loans d mid \<le> limit
           | Unset \<Rightarrow> True
           | Null \<Rightarrow> True)
      | POST_books b \<Rightarrow> True
      | PUT_books bid b \<Rightarrow> True
      | DELETE_books bid \<Rightarrow> True
      | POST_members m \<Rightarrow> True
      | DELETE_members mid \<Rightarrow> True
      | POST_loans rq \<Rightarrow> True
      | PUT_loans_return tid \<Rightarrow> True)"

fun limits_kept :: "(env \<times> request) list \<Rightarrow> database \<Rightarrow> bool" where
  "limits_kept [] d = True"
| "limits_kept ((e, r) # rest) d =
     (keeps_limit r d \<and> limits_kept rest (fst (endpoint e r d)))"

text \<open>A field of an update that supplies no value: left out of the body, or \<^verbatim>\<open>null\<close>.\<close>

definition absent :: "'a field \<Rightarrow> bool" where
  "absent f = (case f of Unset \<Rightarrow> True | Null \<Rightarrow> True | Value v \<Rightarrow> False)"

text \<open>
  What an update \<open>u\<close> must leave alone in a stored book: \<open>b\<close> is the row before and \<open>b'\<close>
  the same row after. A column whose field is absent keeps its value, and a column that
  held a value is not cleared to \<^verbatim>\<open>NULL\<close>.
\<close>

definition book_kept :: "BookUpdate \<Rightarrow> book \<Rightarrow> book \<Rightarrow> bool" where
  "book_kept u b b' \<longleftrightarrow>
     book_id b' = book_id b \<and>
     (absent (bu_isbn u) \<longrightarrow> isbn b' = isbn b) \<and>
     (absent (bu_title u) \<longrightarrow> title b' = title b) \<and>
     (absent (bu_subtitle u) \<longrightarrow> subtitle b' = subtitle b) \<and>
     (absent (bu_publication_date u) \<longrightarrow> publication_date b' = publication_date b) \<and>
     (absent (bu_edition u) \<longrightarrow> edition b' = edition b) \<and>
     (absent (bu_pages u) \<longrightarrow> pages b' = pages b) \<and>
     (absent (bu_language u) \<longrightarrow> language b' = language b) \<and>
     (absent (bu_book_condition u) \<longrightarrow> book_condition b' = book_condition b) \<and>
     (absent (bu_location_shelf u) \<longrightarrow> location_shelf b' = location_shelf b) \<and>
     (absent (bu_total_copies u) \<longrightarrow> total_copies b' = total_copies b) \<and>
     (absent (bu_available_copies u) \<longrightarrow> available_copies b' = available_copies b) \<and>
     (absent (bu_price u) \<longrightarrow> price b' = price b) \<and>
     (absent (bu_publisher_id u) \<longrightarrow> publisher_id b' = publisher_id b) \<and>
     (absent (bu_category_id u) \<longrightarrow> category_id b' = category_id b) \<and>
     (subtitle b \<noteq> None \<longrightarrow> subtitle b' \<noteq> None) \<and>
     (publication_date b \<noteq> None \<longrightarrow> publication_date b' \<noteq> None) \<and>
     (edition b \<noteq> None \<longrightarrow> edition b' \<noteq> None) \<and>
     (pages b \<noteq> None \<longrightarrow> pages b' \<noteq> None) \<and>
     (language b \<noteq> None \<longrightarrow> language b' \<noteq> None) \<and>
     (book_condition b \<noteq> None \<longrightarrow> book_condition b' \<noteq> None) \<and>
     (location_shelf b \<noteq> None \<longrightarrow> location_shelf b' \<noteq> None) \<and>
     (price b \<noteq> None \<longrightarrow> price b' \<noteq> None) \<and>
     (publisher_id b \<noteq> None \<longrightarrow> publisher_id b' \<noteq> None)"

definition book_update_absent :: "BookUpdate \<Rightarrow> bool" where
  "book_update_absent u \<longleftrightarrow>
     absent (bu_isbn u) \<and> absent (bu_title u) \<and> absent (bu_subtitle u) \<and>
     absent (bu_publication_date u) \<and> absent (bu_edition u) \<and> absent (bu_pages u) \<and>
     absent (bu_language u) \<and> absent (bu_book_condition u) \<and>
     absent (bu_location_shelf u) \<and> absent (bu_total_copies u) \<and>
     absent (bu_available_copies u) \<and> absent (bu_price u) \<and> absent (bu_publisher_id u) \<and>
     absent (bu_category_id u) \<and> absent (bu_authors u)"

definition member_kept :: "MemberUpdate \<Rightarrow> member \<Rightarrow> member \<Rightarrow> bool" where
  "member_kept u m m' \<longleftrightarrow>
     member_id m' = member_id m \<and>
     (absent (mu_membership_number u) \<longrightarrow> membership_number m' = membership_number m) \<and>
     (absent (mu_first_name u) \<longrightarrow> first_name m' = first_name m) \<and>
     (absent (mu_last_name u) \<longrightarrow> last_name m' = last_name m) \<and>
     (absent (mu_date_of_birth u) \<longrightarrow> date_of_birth m' = date_of_birth m) \<and>
     (absent (mu_gender u) \<longrightarrow> gender m' = gender m) \<and>
     (absent (mu_email u) \<longrightarrow> email m' = email m) \<and>
     (absent (mu_phone_number u) \<longrightarrow> phone_number m' = phone_number m) \<and>
     (absent (mu_address u) \<longrightarrow> address m' = address m) \<and>
     (absent (mu_city u) \<longrightarrow> city m' = city m) \<and>
     (absent (mu_postal_code u) \<longrightarrow> postal_code m' = postal_code m) \<and>
     (absent (mu_membership_type u) \<longrightarrow> membership_type m' = membership_type m) \<and>
     (absent (mu_membership_start_date u) \<longrightarrow>
        membership_start_date m' = membership_start_date m) \<and>
     (absent (mu_membership_expiry_date u) \<longrightarrow>
        membership_expiry_date m' = membership_expiry_date m) \<and>
     (absent (mu_is_active u) \<longrightarrow> is_active m' = is_active m) \<and>
     (absent (mu_max_books_allowed u) \<longrightarrow> max_books_allowed m' = max_books_allowed m) \<and>
     (date_of_birth m \<noteq> None \<longrightarrow> date_of_birth m' \<noteq> None) \<and>
     (gender m \<noteq> None \<longrightarrow> gender m' \<noteq> None) \<and>
     (email m \<noteq> None \<longrightarrow> email m' \<noteq> None) \<and>
     (phone_number m \<noteq> None \<longrightarrow> phone_number m' \<noteq> None) \<and>
     (address m \<noteq> None \<longrightarrow> address m' \<noteq> None) \<and>
     (city m \<noteq> None \<longrightarrow> city m' \<noteq> None) \<and>
     (postal_code m \<noteq> None \<longrightarrow> postal_code m' \<noteq> None) \<and>
     (membership_type m \<noteq> None \<longrightarrow> membership_type m' \<noteq> None) \<and>
     (max_books_allowed m \<noteq> None \<longrightarrow> max_books_allowed m' \<noteq> None)"

definition member_update_absent :: "MemberUpdate \<Rightarrow> bool" where
  "member_update_absent u \<longleftrightarrow>
     absent (mu_membership_number u) \<and> absent (mu_first_name u) \<and>
     absent (mu_last_name u) \<and> absent (mu_date_of_birth u) \<and> absent (mu_gender u) \<and>
     absent (mu_email u) \<and> absent (mu_phone_number u) \<and> absent (mu_address u) \<and>
     absent (mu_city u) \<and> absent (mu_postal_code u) \<and> absent (mu_membership_type u) \<and>
     absent (mu_membership_start_date u) \<and> absent (mu_membership_expiry_date u) \<and>
     absent (mu_is_active u) \<and> absent (mu_max_books_allowed u)"

section \<open>Properties\<close>

subsection \<open>The loan handlers, unfolded\<close>

lemma return_book_unfold:
  "return_book e tid d =
    (case fault e 0 of
       Some x \<Rightarrow> (d, Inl (gateway_error x))
     | None \<Rightarrow>
        (case find (\<lambda>l. transaction_id l = tid \<and> loan_status l = Active) (loan_transactions d) of
           None \<Rightarrow> (d, Inl LoanNotFound)
         | Some l \<Rightarrow>
            (case fault e 1 of
               Some x \<Rightarrow> (d, Inl (gateway_error x))
             | None \<Rightarrow>
                (case fault e 2 of
                   Some x \<Rightarrow>
                     (d\<lparr>loan_transactions :=
                          loans_mark_returned (today e) (now e) tid (loan_transactions d)\<rparr>,
                      Inl (gateway_error x))
                 | None \<Rightarrow>
                    (d\<lparr>loan_transactions :=
                          loans_mark_returned (today e) (now e) tid (loan_transactions d),
                       books := books_add_copies 1 (loan_book_id l) (books d)\<rparr>,
                     Inr \<lparr>success = True, message = ''Book returned successfully'',
                          data = None\<rparr>)))))"
  by (simp add: return_book_def bind_def execute_query_def select_active_loan_def
        mark_returned_def add_available_copies_def raise_def return_action_def LoanNotFound_def
      split: option.splits)

lemma create_loan_unfold:
  "create_loan e loan d =
    (case fault e 0 of
       Some x \<Rightarrow> (d, Inl (gateway_error x))
     | None \<Rightarrow>
        (case the_book d (lc_book_id loan) of
           None \<Rightarrow> (d, Inl BookUnavailable)
         | Some b \<Rightarrow>
            if available_copies b \<le> 0 then (d, Inl BookUnavailable)
            else
            (case fault e 1 of
               Some x \<Rightarrow> (d, Inl (gateway_error x))
             | None \<Rightarrow>
                (case the_member d (lc_member_id loan) of
                   None \<Rightarrow> (d, Inl MemberNotFound)
                 | Some m \<Rightarrow>
                    if \<not> is_active m then (d, Inl MemberInactive)
                    else
                    (case fault e 2 of
                       Some x \<Rightarrow> (d, Inl (gateway_error x))
                     | None \<Rightarrow>
                        (case max_books_allowed m of
                           None \<Rightarrow> (d, Inl TypeError)
                         | Some limit \<Rightarrow>
                            if active_loans d (lc_member_id loan) \<ge> limit
                            then (d, Inl LoanLimitExceeded)
                            else
                            (case fault e 3 of
                               Some x \<Rightarrow> (d, Inl (gateway_error x))
                             | None \<Rightarrow>
                                (case fault e 4 of
                                   Some x \<Rightarrow>
                                     (d\<lparr>loan_transactions := loan_transactions d @
                                          [new_loan (next_transaction_id d) (now e)
                                             (lc_member_id loan) (lc_book_id loan)
                                             (lc_staff_id loan) (lc_loan_date loan)
                                             (lc_due_date loan) (lc_notes loan)],
                                        next_transaction_id := next_transaction_id d + 1\<rparr>,
                                      Inl (gateway_error x))
                                 | None \<Rightarrow>
                                     (d\<lparr>loan_transactions := loan_transactions d @
                                          [new_loan (next_transaction_id d) (now e)
                                             (lc_member_id loan) (lc_book_id loan)
                                             (lc_staff_id loan) (lc_loan_date loan)
                                             (lc_due_date loan) (lc_notes loan)],
                                        next_transaction_id := next_transaction_id d + 1,
                                        books := books_add_copies (- 1) (lc_book_id loan)
                                                   (books d)\<rparr>,
                                      Inr \<lparr>success = True,
                                           message = ''Book loan created successfully'',
                                           data = None\<rparr>)))))))))"
  by (simp add: create_loan_def bind_def execute_query_def select_available_copies_def
        select_member_limits_def count_active_loans_of_member_def insert_loan_def
        add_available_copies_def raise_def return_action_def the_book_def the_member_def
        BookUnavailable_def MemberNotFound_def MemberInactive_def LoanLimitExceeded_def
      split: option.splits)


lemma status_gateway_error: "status_code (gateway_error x) = 500"
  by (cases x) simp_all

lemma create_loan_rejection_keeps_store:
  assumes "create_loan e loan d = (d', Inl x)" and "status_code x \<noteq> 500"
  shows "d' = d"
proof (rule ccontr)
  assume neq: "d' \<noteq> d"
  have "status_code x = 500"
    using assms(1) neq unfolding create_loan_unfold
    by (simp add: status_gateway_error split: option.splits if_splits) (metis status_gateway_error)+
  with assms(2) show False by simp
qed


lemma create_loan_checks:
  assumes "fault e 0 = None" and "fault e 1 = None" and "fault e 2 = None"
  shows "the_book d (lc_book_id loan) = None \<Longrightarrow> create_loan e loan d = (d, Inl BookUnavailable)"
    and "the_book d (lc_book_id loan) = Some b \<Longrightarrow> \<not> available_copies b > 0 \<Longrightarrow>
           create_loan e loan d = (d, Inl BookUnavailable)"
    and "the_book d (lc_book_id loan) = Some b \<Longrightarrow> available_copies b > 0 \<Longrightarrow>
         the_member d (lc_member_id loan) = None \<Longrightarrow>
           create_loan e loan d = (d, Inl MemberNotFound)"
    and "the_book d (lc_book_id loan) = Some b \<Longrightarrow> available_copies b > 0 \<Longrightarrow>
         the_member d (lc_member_id loan) = Some m \<Longrightarrow> \<not> is_active m \<Longrightarrow>
           create_loan e loan d = (d, Inl MemberInactive)"
    and "the_book d (lc_book_id loan) = Some b \<Longrightarrow> available_copies b > 0 \<Longrightarrow>
         the_member d (lc_member_id loan) = Some m \<Longrightarrow> is_active m \<Longrightarrow>
         max_books_allowed m = Some limit \<Longrightarrow> \<not> active_loans d (lc_member_id loan) < limit \<Longrightarrow>
           create_loan e loan d = (d, Inl LoanLimitExceeded)"
  using assms by (simp_all add: create_loan_unfold)

text \<open>
  Claim C4. \<^verbatim>\<open>POST /api/loans\<close> checks the preconditions of borrowing in the order of
  the specification, and the first one that fails decides the reply: a due date that is
  not after the loan date (422), then a book that is missing or has no copy left, then a
  member that is missing or inactive, then a member at the loan limit. In each case the
  store is left as it was; more generally every reply of the endpoint other than a 500
  leaves the store as it was. The theorem is about requests whose identifiers are
  positive (the others are refused with 422 at the boundary) and about gateway calls
  that reach the store for the three look-ups.
\<close>

theorem borrow_preconditions_in_order:
  assumes "fault e 0 = None" and "fault e 1 = None" and "fault e 2 = None"
      and "rq_member_id rq > 0" and "rq_book_id rq > 0"
  shows "(\<forall>x. borrow_rejection (today e) rq d = Some x \<longrightarrow> post_loans e rq d = (d, Inl x)) \<and>
         (\<forall>d' x. post_loans e rq d = (d', Inl x) \<and> status_code x \<noteq> 500 \<longrightarrow> d' = d)"
proof (intro conjI allI impI)
  fix x
  assume r: "borrow_rejection (today e) rq d = Some x"
  define ld where "ld = (case rq_loan_date rq of None \<Rightarrow> today e | Some v \<Rightarrow> v)"
  show "post_loans e rq d = (d, Inl x)"
  proof (cases "rq_due_date rq > ld")
    case False
    with r have "x = InvalidInput"
      by (simp add: borrow_rejection_def ld_def)
    moreover from False have "post_loans e rq d = (d, Inl RequestValidationError)"
      by (simp add: post_loans_def parse_LoanCreate_def validate_due_date_def ld_def raise_def)
    ultimately show ?thesis by (simp add: InvalidInput_def)
  next
    case due: True
    define loan where "loan = \<lparr>lc_member_id = rq_member_id rq, lc_book_id = rq_book_id rq,
                lc_staff_id = rq_staff_id rq, lc_loan_date = ld,
                lc_due_date = rq_due_date rq, lc_notes = rq_notes rq\<rparr>"
    from due assms(4,5) have p: "post_loans e rq d = create_loan e loan d"
      by (simp add: post_loans_def parse_LoanCreate_def validate_due_date_def ld_def loan_def)
    have ids: "lc_book_id loan = rq_book_id rq" "lc_member_id loan = rq_member_id rq"
      by (simp_all add: loan_def)
    note checks = create_loan_checks [OF assms(1,2,3), of d loan, unfolded ids]
    show ?thesis
    proof (cases "the_book d (rq_book_id rq)")
      case None
      with r due have "x = BookUnavailable"
        by (simp add: borrow_rejection_def ld_def)
      with None show ?thesis by (simp add: p checks(1))
    next
      case b: (Some b)
      show ?thesis
      proof (cases "available_copies b > 0")
        case False
        with r due b have "x = BookUnavailable"
          by (simp add: borrow_rejection_def ld_def)
        with b False show ?thesis by (simp add: p checks(2))
      next
        case av: True
        show ?thesis
        proof (cases "the_member d (rq_member_id rq)")
          case None
          with r due b av have "x = MemberNotFound"
            by (simp add: borrow_rejection_def ld_def)
          with b av None show ?thesis by (simp add: p checks(3))
        next
          case m: (Some m)
          show ?thesis
          proof (cases "is_active m")
            case False
            with r due b av m have "x = MemberInactive"
              by (simp add: borrow_rejection_def ld_def)
            with b av m False show ?thesis by (simp add: p checks(4))
          next
            case act: True
            from r due b av m act obtain limit where
              l: "max_books_allowed m = Some limit"
              and n: "\<not> active_loans d (rq_member_id rq) < limit"
              and x: "x = LoanLimitExceeded"
              by (cases "max_books_allowed m")
                 (simp_all add: borrow_rejection_def ld_def split: if_splits)
            from b av m act l n x show ?thesis by (simp add: p checks(5))
          qed
        qed
      qed
    qed
  qed
next
  fix d' x
  assume a: "post_loans e rq d = (d', Inl x) \<and> status_code x \<noteq> 500"
  show "d' = d"
  proof (cases "parse_LoanCreate (today e) rq")
    case (Inl y)
    with a show ?thesis by (simp add: post_loans_def raise_def)
  next
    case (Inr loan)
    with a have "create_loan e loan d = (d', Inl x)" by (simp add: post_loans_def)
    with a show ?thesis using create_loan_rejection_keeps_store by blast
  qed
qed

lemma find_active_None:
  "(\<forall>l \<in> set ls. transaction_id l = tid \<longrightarrow> loan_status l \<noteq> Active) \<Longrightarrow>
   find (\<lambda>l. transaction_id l = tid \<and> loan_status l = Active) ls = None"
  by (simp add: find_None_iff)

lemma loans_mark_returned_inactive:
  "\<forall>l \<in> set (loans_mark_returned day t tid ls). transaction_id l = tid \<longrightarrow> loan_status l \<noteq> Active"
  by (induction ls) (simp_all add: loans_mark_returned_def)

lemma return_book_success_loans:
  assumes "return_book e tid d = (d', Inr r)"
  shows "loan_transactions d' = loans_mark_returned (today e) (now e) tid (loan_transactions d)"
  using assms unfolding return_book_unfold
  by (clarsimp split: option.splits)

text \<open>
  Claim C5. Returning a transaction that has no Active loan row, in particular one that
  an earlier call of \<^verbatim>\<open>return_book\<close> has already returned, changes nothing in the store
  (so \<^verbatim>\<open>available_copies\<close> is not incremented a second time), and the reply is
  \<^verbatim>\<open>LoanNotFound\<close> (404) whenever the look-up reaches the store.
\<close>

theorem return_book_rejects_inactive:
  assumes "(\<forall>l \<in> set (loan_transactions d). transaction_id l = tid \<longrightarrow> loan_status l \<noteq> Active)
           \<or> (\<exists>e0 d0 r. return_book e0 tid d0 = (d, Inr r))"
  shows "fst (return_book e tid d) = d \<and>
         (fault e 0 = None \<longrightarrow> return_book e tid d = (d, Inl LoanNotFound))"
proof -
  have na: "\<forall>l \<in> set (loan_transactions d). transaction_id l = tid \<longrightarrow> loan_status l \<noteq> Active"
    using assms
  proof
    assume "\<exists>e0 d0 r. return_book e0 tid d0 = (d, Inr r)"
    then obtain e0 d0 r where "return_book e0 tid d0 = (d, Inr r)" by blast
    then have "loan_transactions d =
        loans_mark_returned (today e0) (now e0) tid (loan_transactions d0)"
      by (rule return_book_success_loans)
    then show ?thesis using loans_mark_returned_inactive by simp
  qed simp
  have nf: "find (\<lambda>l. transaction_id l = tid \<and> loan_status l = Active) (loan_transactions d) = None"
    using na by (rule find_active_None)
  show ?thesis
    unfolding return_book_unfold by (simp add: nf split: option.splits)
qed


subsection \<open>The scenario, evaluated\<close>

lemmas example_defs = calm_def borrow_B_def library_def book_B_def member_M_def

lemma library_borrow:
  "post_loans calm borrow_B library =
     (library\<lparr>loan_transactions := [new_loan 1 1000 1 1 None 100 114 None],
              next_transaction_id := 2,
              books := [book_B\<lparr>available_copies := 2\<rparr>]\<rparr>,
      Inr \<lparr>success = True, message = ''Book loan created successfully'', data = None\<rparr>)"
  by (simp add: post_loans_def parse_LoanCreate_def validate_due_date_def create_loan_unfold
        example_defs the_book_def the_member_def active_loans_def books_add_copies_def)

theorem borrow_preconditions_in_order_witness:
  "borrow_rejection (today calm) borrow_B (fst (post_loans calm borrow_B library))
     = Some LoanLimitExceeded \<and>
   post_loans calm borrow_B (fst (post_loans calm borrow_B library))
     = (fst (post_loans calm borrow_B library), Inl LoanLimitExceeded)"
proof -
  have r: "borrow_rejection (today calm) borrow_B (fst (post_loans calm borrow_B library))
             = Some LoanLimitExceeded"
    unfolding library_borrow
    by (simp add: borrow_rejection_def example_defs the_book_def the_member_def
          active_loans_def new_loan_def)
  have "fault calm 0 = None" "fault calm 1 = None" "fault calm 2 = None"
       "rq_member_id borrow_B > 0" "rq_book_id borrow_B > 0"
    by (simp_all add: calm_def borrow_B_def)
  from borrow_preconditions_in_order [OF this, of "fst (post_loans calm borrow_B library)"] r
  show ?thesis by simp
qed

theorem return_book_rejects_inactive_witness:
  "return_book calm 1 (fst (return_book calm 1 (fst (post_loans calm borrow_B library))))
     = (fst (return_book calm 1 (fst (post_loans calm borrow_B library))), Inl LoanNotFound)"
proof -
  have s: "\<exists>r. return_book calm 1 (fst (post_loans calm borrow_B library))
             = (fst (return_book calm 1 (fst (post_loans calm borrow_B library))), Inr r)"
    unfolding library_borrow
    by (simp add: return_book_unfold example_defs new_loan_def)
  have "fault calm 0 = None" by (simp add: calm_def)
  with return_book_rejects_inactive
         [of "fst (return_book calm 1 (fst (post_loans calm borrow_B library)))" 1 calm] s
  show ?thesis by blast
qed

subsection \<open>Where the handlers fall short of the specification\<close>

lemma execute_transaction_single:
  "execute_transaction flt [q] d =
     (case flt of
        Some x \<Rightarrow> (d, Inl (gateway_error x))
      | None \<Rightarrow>
         (case q d of
            Inl x \<Rightarrow> (d, Inl (gateway_error x))
          | Inr (d', r) \<Rightarrow> (d', Inr [r])))"
  by (simp add: execute_transaction_def split: option.splits sum.splits prod.splits)

text \<open>
  Claim C1. The store is meant to keep \<open>0 \<le> available_copies \<le> total_copies\<close> for every
  book, and \<^verbatim>\<open>BookBase\<close> checks it when a book is created. \<^verbatim>\<open>BookUpdate\<close> has no such
  check: on the library of the scenario, whose book has three copies, the valid request
  \<^verbatim>\<open>PUT /api/books/1\<close> with \<^verbatim>\<open>available_copies = 5\<close> is accepted and stores five
  available copies out of three.
\<close>

theorem update_book_breaks_copies_in_range:
  "copies_in_range library \<and>
   valid_BookUpdate (no_book_changes\<lparr>bu_available_copies := Value 5\<rparr>) \<and>
   endpoint calm (PUT_books 1 (no_book_changes\<lparr>bu_available_copies := Value 5\<rparr>)) library
     = (library\<lparr>books := [book_B\<lparr>available_copies := 5, updated_at := 1000\<rparr>]\<rparr>,
        Inr \<lparr>success = True, message = ''Book updated successfully'', data = None\<rparr>) \<and>
   \<not> copies_in_range
       (serve [(calm, PUT_books 1 (no_book_changes\<lparr>bu_available_copies := Value 5\<rparr>))] library)"
  by (simp add: copies_in_range_def example_defs valid_BookUpdate_def no_book_changes_def
        update_book_def bind_def execute_query_def select_book_exists_def raise_def
        return_action_def book_update_fields_def update_field_def update_books_set_def
        books_set_def unique_books_def)

text \<open>
  Claim C2. The insertion of the loan and the decrement of \<^verbatim>\<open>available_copies\<close> are two
  calls of \<^verbatim>\<open>execute_query\<close>, each committed on its own. When the second call fails,
  the reply is a 500 and the store keeps the Active loan without the decrement: the
  member holds one Active loan and the book still shows three available copies.
\<close>

theorem borrow_is_not_atomic:
  "post_loans (failing_at 4) borrow_B library
     = (library\<lparr>loan_transactions := [new_loan 1 1000 1 1 None 100 114 None],
                next_transaction_id := 2\<rparr>,
        Inl (HTTPException 500 ''Database error: Lost connection'')) \<and>
   active_loans (fst (post_loans (failing_at 4) borrow_B library)) 1 = 1 \<and>
   copies_available (fst (post_loans (failing_at 4) borrow_B library)) 1 = Some 3 \<and>
   copies_available library 1 = Some 3"
  by (simp add: post_loans_def parse_LoanCreate_def validate_due_date_def create_loan_unfold
        failing_at_def example_defs the_book_def the_member_def active_loans_def
        copies_available_def new_loan_def)

text \<open>
  Claim C3. A successful \<^verbatim>\<open>POST /api/loans\<close> is answered with status 201, but the reply
  of \<^verbatim>\<open>create_loan\<close> has no data: no \<^verbatim>\<open>transaction_id\<close> is returned.
\<close>

theorem borrow_reply_without_transaction_id:
  "snd (post_loans calm borrow_B library)
     = Inr \<lparr>success = True, message = ''Book loan created successfully'', data = None\<rparr> \<and>
   http_status 201 (snd (post_loans calm borrow_B library)) = 201"
  by (simp add: library_borrow http_status_def)

text \<open>
  Claim C8. A valid \<^verbatim>\<open>POST /api/books\<close> whose ISBN is taken, and a valid
  \<^verbatim>\<open>POST /api/members\<close> whose membership number is taken, insert nothing, but the reply
  is a 500: the gateway turns the driver's \<^verbatim>\<open>IntegrityError\<close> into an
  \<^verbatim>\<open>HTTPException\<close> before the handler's \<^verbatim>\<open>except\<close> clause (which would answer 409)
  can see it.
\<close>

theorem duplicate_keys_answered_with_500:
  "valid_BookCreate second_copy \<and>
   endpoint calm (POST_books second_copy) library
     = (library, Inl (HTTPException 500 ''Database error: Duplicate entry for key isbn'')) \<and>
   valid_MemberCreate (today calm) second_card \<and>
   endpoint calm (POST_members second_card) library
     = (library,
        Inl (HTTPException 500 ''Database error: Duplicate entry for key membership_number''))"
  by (simp add: valid_BookCreate_def valid_MemberCreate_def second_copy_def second_card_def
        book_conditions_def membership_types_def validate_available_copies_def
        create_book_def create_member_def except_IntegrityError_def bind_def
        execute_transaction_single execute_query_def insert_book_def insert_member_def
        unique_books_def unique_members_def new_book_def new_member_def example_defs
        List.map_filter_def)

subsection \<open>Partial updates\<close>

lemma fold_assign_book_invariant:
  assumes "\<And>a r. a \<in> set sets \<Longrightarrow> P r \<Longrightarrow> P (assign_book a r)" and "P b"
  shows "P (fold assign_book sets b)"
  using assms by (induction sets arbitrary: b) simp_all

lemma in_update_field:
  "a \<in> set (update_field mk f) \<longleftrightarrow> (\<exists>v. f = Value v \<and> a = mk v)"
  by (cases f) (simp_all add: update_field_def eq_commute)

lemma update_field_absent: "absent f \<Longrightarrow> update_field mk f = []"
  by (cases f) (simp_all add: update_field_def absent_def)

lemma in_book_update_fields:
  "a \<in> set (book_update_fields u) \<longleftrightarrow>
     (\<exists>v. bu_isbn u = Value v \<and> a = Set_isbn v) \<or>
     (\<exists>v. bu_title u = Value v \<and> a = Set_title v) \<or>
     (\<exists>v. bu_subtitle u = Value v \<and> a = Set_subtitle v) \<or>
     (\<exists>v. bu_publication_date u = Value v \<and> a = Set_publication_date v) \<or>
     (\<exists>v. bu_edition u = Value v \<and> a = Set_edition v) \<or>
     (\<exists>v. bu_pages u = Value v \<and> a = Set_pages v) \<or>
     (\<exists>v. bu_language u = Value v \<and> a = Set_language v) \<or>
     (\<exists>v. bu_book_condition u = Value v \<and> a = Set_book_condition v) \<or>
     (\<exists>v. bu_location_shelf u = Value v \<and> a = Set_location_shelf v) \<or>
     (\<exists>v. bu_total_copies u = Value v \<and> a = Set_total_copies v) \<or>
     (\<exists>v. bu_available_copies u = Value v \<and> a = Set_available_copies v) \<or>
     (\<exists>v. bu_price u = Value v \<and> a = Set_price v) \<or>
     (\<exists>v. bu_publisher_id u = Value v \<and> a = Set_publisher_id v) \<or>
     (\<exists>v. bu_category_id u = Value v \<and> a = Set_category_id v)"
  by (simp add: book_update_fields_def in_update_field disj_ac)

lemma absent_Value: "absent (Value v) = False"
  by (simp add: absent_def)

lemma book_kept_refl: "book_kept u b b"
  by (simp add: book_kept_def)

lemma book_kept_assign:
  assumes "a \<in> set (book_update_fields u)" and "book_kept u b r"
  shows "book_kept u b (assign_book a r)"
  using assms unfolding in_book_update_fields
  by (elim disjE exE conjE; simp add: book_kept_def absent_Value)

lemma book_kept_books_set:
  "list_all2 (book_kept u) bs (books_set (book_update_fields u) t bid bs)"
proof -
  have "book_kept u b ((fold assign_book (book_update_fields u) b)\<lparr>updated_at := t\<rparr>)" for b
  proof -
    have "book_kept u b (fold assign_book (book_update_fields u) b)"
      by (rule fold_assign_book_invariant [where P = "book_kept u b"])
         (simp_all add: book_kept_assign book_kept_refl)
    then show ?thesis by (simp add: book_kept_def)
  qed
  then show ?thesis
    by (simp add: books_set_def list_all2_map2 list_all2_same book_kept_refl)
qed

lemma book_update_fields_absent:
  "book_update_absent u \<Longrightarrow> book_update_fields u = []"
  by (simp add: book_update_absent_def book_update_fields_def update_field_absent)

lemma fold_assign_member_invariant:
  assumes "\<And>a r. a \<in> set sets \<Longrightarrow> P r \<Longrightarrow> P (assign_member a r)" and "P m"
  shows "P (fold assign_member sets m)"
  using assms by (induction sets arbitrary: m) simp_all

lemma in_member_update_fields:
  "a \<in> set (member_update_fields u) \<longleftrightarrow>
     (\<exists>v. mu_membership_number u = Value v \<and> a = Set_membership_number v) \<or>
     (\<exists>v. mu_first_name u = Value v \<and> a = Set_first_name v) \<or>
     (\<exists>v. mu_last_name u = Value v \<and> a = Set_last_name v) \<or>
     (\<exists>v. mu_date_of_birth u = Value v \<and> a = Set_date_of_birth v) \<or>
     (\<exists>v. mu_gender u = Value v \<and> a = Set_gender v) \<or>
     (\<exists>v. mu_email u = Value v \<and> a = Set_email v) \<or>
     (\<exists>v. mu_phone_number u = Value v \<and> a = Set_phone_number v) \<or>
     (\<exists>v. mu_address u = Value v \<and> a = Set_address v) \<or>
     (\<exists>v. mu_city u = Value v \<and> a = Set_city v) \<or>
     (\<exists>v. mu_postal_code u = Value v \<and> a = Set_postal_code v) \<or>
     (\<exists>v. mu_membership_type u = Value v \<and> a = Set_membership_type v) \<or>
     (\<exists>v. mu_membership_start_date u = Value v \<and> a = Set_membership_start_date v) \<or>
     (\<exists>v. mu_membership_expiry_date u = Value v \<and> a = Set_membership_expiry_date v) \<or>
     (\<exists>v. mu_is_active u = Value v \<and> a = Set_is_active v) \<or>
     (\<exists>v. mu_max_books_allowed u = Value v \<and> a = Set_max_books_allowed v)"
  by (simp add: member_update_fields_def in_update_field disj_ac)

lemma member_kept_refl: "member_kept u m m"
  by (simp add: member_kept_def)

lemma member_kept_assign:
  assumes "a \<in> set (member_update_fields u)" and "member_kept u m r"
  shows "member_kept u m (assign_member a r)"
  using assms unfolding in_member_update_fields
  by (elim disjE exE conjE; simp add: member_kept_def absent_Value)

lemma member_kept_members_set:
  "list_all2 (member_kept u) ms (members_set (member_update_fields u) t mid ms)"
proof -
  have "member_kept u m ((fold assign_member (member_update_fields u) m)\<lparr>member_updated_at := t\<rparr>)"
    for m
  proof -
    have "member_kept u m (fold assign_member (member_update_fields u) m)"
      by (rule fold_assign_member_invariant [where P = "member_kept u m"])
         (simp_all add: member_kept_assign member_kept_refl)
    then show ?thesis by (simp add: member_kept_def)
  qed
  then show ?thesis
    by (simp add: members_set_def list_all2_map2 list_all2_same member_kept_refl)
qed

lemma member_update_fields_absent:
  "member_update_absent u \<Longrightarrow> member_update_fields u = []"
  by (simp add: member_update_absent_def member_update_fields_def update_field_absent)


lemma insert_authors_frame:
  "(fst (insert_authors e k bid entries d))\<lparr>book_authors := book_authors d\<rparr> = d"
proof (induction entries arbitrary: k d)
  case Nil
  show ?case by (simp add: return_action_def)
next
  case (Cons entry entries)
  obtain author_id role where entry: "entry = (author_id, role)" by (cases entry)
  show ?case
  proof (cases author_id)
    case None
    with entry show ?thesis by (simp add: raise_def)
  next
    case (Some aid)
    show ?thesis
    proof (cases "fault e k")
      case f: (Some x)
      with Some entry show ?thesis
        by (simp add: bind_def execute_query_def)
    next
      case f: None
      define d1 where "d1 = d\<lparr>book_authors := book_authors d @
          [(bid, aid, case role of None \<Rightarrow> ''Primary Author'' | Some r \<Rightarrow> r)]\<rparr>"
      have step: "fst (insert_authors e k bid (entry # entries) d)
                  = fst (insert_authors e (Suc k) bid entries d1)"
        using Some entry f
        by (simp add: bind_def execute_query_def insert_book_author_def d1_def
              split: prod.splits sum.splits)
      have "(fst (insert_authors e (Suc k) bid entries d1))\<lparr>book_authors := book_authors d\<rparr>
            = ((fst (insert_authors e (Suc k) bid entries d1))\<lparr>book_authors := book_authors d1\<rparr>)
                \<lparr>book_authors := book_authors d\<rparr>"
        by simp
      also have "\<dots> = d1\<lparr>book_authors := book_authors d\<rparr>"
        by (simp only: Cons.IH)
      also have "\<dots> = d" by (simp add: d1_def)
      finally show ?thesis by (simp only: step)
    qed
  qed
qed

lemma update_member_unfold:
  "update_member e mid u d =
    (case fault e 0 of
       Some x \<Rightarrow> (d, Inl (gateway_error x))
     | None \<Rightarrow>
        if the_member d mid = None then (d, Inl MemberNotFound)
        else if member_update_fields u = []
        then (d, Inr \<lparr>success = True, message = ''Member updated successfully'', data = None\<rparr>)
        else
        (case fault e 1 of
           Some x \<Rightarrow> (d, Inl (gateway_error x))
         | None \<Rightarrow>
            (case unique_members (members_set (member_update_fields u) (now e) mid (members d)) of
               Some x \<Rightarrow> (d, Inl (gateway_error x))
             | None \<Rightarrow>
                (d\<lparr>members := members_set (member_update_fields u) (now e) mid (members d)\<rparr>,
                 Inr \<lparr>success = True, message = ''Member updated successfully'',
                      data = None\<rparr>))))"
  by (simp add: update_member_def bind_def execute_query_def select_member_exists_def
        update_members_set_def raise_def return_action_def the_member_def MemberNotFound_def
        Let_def
      split: option.splits)


lemma insert_authors_frame':
  "(fst (insert_authors e k bid entries d))\<lparr>book_authors := X\<rparr> = d\<lparr>book_authors := X\<rparr>"
proof -
  have "(fst (insert_authors e k bid entries d))\<lparr>book_authors := X\<rparr>
        = ((fst (insert_authors e k bid entries d))\<lparr>book_authors := book_authors d\<rparr>)
            \<lparr>book_authors := X\<rparr>"
    by simp
  then show ?thesis by (simp only: insert_authors_frame)
qed

lemma fst_bind:
  "fst (bind m f d) = (case m d of (d', Inl x) \<Rightarrow> d' | (d', Inr v) \<Rightarrow> fst (f v d'))"
  by (simp add: bind_def split: prod.splits sum.splits)

lemma fst_bind_return:
  "fst (bind m (\<lambda>v. return_action (g v)) d) = fst (m d)"
  by (simp add: bind_def return_action_def split: prod.splits sum.splits)

lemma update_book_authors_frame:
  "(fst ((case f of
           Unset \<Rightarrow> return_action ()
         | Null \<Rightarrow> return_action ()
         | Value entries \<Rightarrow>
             bind (execute_query flt (delete_book_authors bid)) (\<lambda>deleted.
             insert_authors e k bid entries)) d))\<lparr>book_authors := X\<rparr>
   = d\<lparr>book_authors := X\<rparr>"
proof (cases f)
  case (Value entries)
  show ?thesis
  proof (cases flt)
    case None
    have "(fst (insert_authors e k bid entries
                 (d\<lparr>book_authors := filter (\<lambda>(b, a, r). b \<noteq> bid) (book_authors d)\<rparr>)))
            \<lparr>book_authors := X\<rparr> = d\<lparr>book_authors := X\<rparr>"
      by (simp add: insert_authors_frame')
    with Value None show ?thesis
      by (simp add: fst_bind execute_query_def delete_book_authors_def)
  qed (simp add: Value fst_bind execute_query_def)
qed (simp_all add: return_action_def)

lemma update_book_effect:
  "(fst (update_book e bid u d))\<lparr>book_authors := X\<rparr> = d\<lparr>book_authors := X\<rparr> \<or>
   (fst (update_book e bid u d))\<lparr>book_authors := X\<rparr>
     = d\<lparr>books := books_set (book_update_fields u) (now e) bid (books d),
         book_authors := X\<rparr>"
proof -
  define tail where "tail = (\<lambda>done :: unit.
     bind (case bu_authors u of
             Unset \<Rightarrow> return_action ()
           | Null \<Rightarrow> return_action ()
           | Value entries \<Rightarrow>
               bind (execute_query (fault e 2) (delete_book_authors bid)) (\<lambda>deleted.
               insert_authors e 3 bid entries)) (\<lambda>done'.
     return_action \<lparr>success = True, message = ''Book updated successfully'',
                     data = None\<rparr>))"
  have tail: "(fst (tail v d'))\<lparr>book_authors := X\<rparr> = d'\<lparr>book_authors := X\<rparr>" for v d'
    unfolding tail_def fst_bind_return by (rule update_book_authors_frame)
  have ub: "update_book e bid u d =
     bind (execute_query (fault e 0) (select_book_exists bid)) (\<lambda>existing_book.
     if \<not> existing_book then raise (HTTPException 404 ''Book not found'')
     else
     bind (let update_fields = book_update_fields u in
           if update_fields \<noteq> []
           then bind (execute_query (fault e 1) (update_books_set update_fields (now e) bid))
                  (\<lambda>updated. return_action ())
           else return_action ()) tail) d"
    unfolding update_book_def tail_def by (rule refl)
  show ?thesis
    unfolding ub
    by (simp add: fst_bind execute_query_def select_book_exists_def raise_def return_action_def
          update_books_set_def tail Let_def bind_def
        split: option.splits)
qed


lemma update_book_absent:
  assumes "book_update_absent u"
  shows "fst (update_book e bid u d) = d"
proof -
  from assms have "absent (bu_authors u)" by (simp add: book_update_absent_def)
  then have a: "bu_authors u = Unset \<or> bu_authors u = Null"
    by (cases "bu_authors u") (simp_all add: absent_def)
  from a show ?thesis
    by (auto simp: update_book_def fst_bind book_update_fields_absent [OF assms]
          execute_query_def select_book_exists_def raise_def return_action_def
        split: option.splits)
qed

lemma update_member_absent:
  assumes "member_update_absent u"
  shows "fst (update_member e mid u d) = d"
  by (simp add: update_member_unfold member_update_fields_absent [OF assms]
      split: option.splits)

text \<open>
  Claim C10. \<^verbatim>\<open>update_book\<close> and \<^verbatim>\<open>update_member\<close> write only the fields that are
  supplied with a value. Whatever the environment, the identifier and the request, every
  stored row keeps the value of each column whose field is left out or \<^verbatim>\<open>null\<close>, no
  column that held a value is cleared to \<^verbatim>\<open>NULL\<close>, and a request in which every field
  is left out or \<^verbatim>\<open>null\<close> leaves the whole store, timestamps included, as it was.
\<close>

theorem updates_keep_absent_fields:
  "list_all2 (book_kept u) (books d) (books (fst (update_book e bid u d))) \<and>
   (book_update_absent u \<longrightarrow> fst (update_book e bid u d) = d) \<and>
   list_all2 (member_kept w) (members d) (members (fst (update_member e mid w d))) \<and>
   (member_update_absent w \<longrightarrow> fst (update_member e mid w d) = d)"
proof (intro conjI impI)
  from update_book_effect [where e = e and bid = bid and u = u and d = d and X = "book_authors d"]
  have "books ((fst (update_book e bid u d))\<lparr>book_authors := book_authors d\<rparr>) = books d \<or>
        books ((fst (update_book e bid u d))\<lparr>book_authors := book_authors d\<rparr>)
          = books_set (book_update_fields u) (now e) bid (books d)"
    by (elim disjE) simp_all
  then have "books (fst (update_book e bid u d)) = books d \<or>
        books (fst (update_book e bid u d))
          = books_set (book_update_fields u) (now e) bid (books d)"
    by simp
  then show "list_all2 (book_kept u) (books d) (books (fst (update_book e bid u d)))"
    by (elim disjE) (simp_all add: book_kept_books_set list_all2_same book_kept_refl)
next
  assume "book_update_absent u"
  then show "fst (update_book e bid u d) = d" by (rule update_book_absent)
next
  have "members (fst (update_member e mid w d)) = members d \<or>
        members (fst (update_member e mid w d))
          = members_set (member_update_fields w) (now e) mid (members d)"
    by (simp add: update_member_unfold split: option.splits)
  then show "list_all2 (member_kept w) (members d) (members (fst (update_member e mid w d)))"
    by (elim disjE) (simp_all add: member_kept_members_set list_all2_same member_kept_refl)
next
  assume "member_update_absent w"
  then show "fst (update_member e mid w d) = d" by (rule update_member_absent)
qed

lemma update_examples:
  "books (fst (update_book calm 1 (no_book_changes\<lparr>bu_title := Value ''Persuasion''\<rparr>) library))
     = [book_B\<lparr>title := ''Persuasion'', updated_at := 1000\<rparr>]"
  "members (fst (update_member calm 1
                      (no_member_changes\<lparr>mu_max_books_allowed := Value 2\<rparr>) library))
     = [member_M\<lparr>max_books_allowed := Some 2, member_updated_at := 1000\<rparr>]"
  by (simp_all add: update_member_unfold example_defs no_book_changes_def no_member_changes_def
        update_book_def bind_def execute_query_def select_book_exists_def raise_def
        return_action_def book_update_fields_def update_field_def update_books_set_def
        books_set_def unique_books_def member_update_fields_def members_set_def
        unique_members_def the_member_def List.map_filter_def)

theorem updates_keep_absent_fields_witness:
  "book_update_absent no_book_changes \<and>
   fst (update_book calm 1 no_book_changes library) = library \<and>
   member_update_absent no_member_changes \<and>
   fst (update_member calm 1 no_member_changes library) = library \<and>
   list_all2 (book_kept (no_book_changes\<lparr>bu_title := Value ''Persuasion''\<rparr>)) (books library)
     (books (fst (update_book calm 1 (no_book_changes\<lparr>bu_title := Value ''Persuasion''\<rparr>)
                   library))) \<and>
   list_all2 (member_kept (no_member_changes\<lparr>mu_max_books_allowed := Value 2\<rparr>))
     (members library)
     (members (fst (update_member calm 1
                      (no_member_changes\<lparr>mu_max_books_allowed := Value 2\<rparr>) library))) \<and>
   books (fst (update_book calm 1 (no_book_changes\<lparr>bu_title := Value ''Persuasion''\<rparr>)
                 library))
     = [book_B\<lparr>title := ''Persuasion'', updated_at := 1000\<rparr>]"
proof -
  have a: "book_update_absent no_book_changes" "member_update_absent no_member_changes"
    by (simp_all add: book_update_absent_def member_update_absent_def no_book_changes_def
          no_member_changes_def absent_def)
  from a updates_keep_absent_fields [of no_book_changes library calm 1 no_member_changes 1]
       updates_keep_absent_fields
         [of "no_book_changes\<lparr>bu_title := Value ''Persuasion''\<rparr>" library calm 1
             "no_member_changes\<lparr>mu_max_books_allowed := Value 2\<rparr>" 1]
       update_examples(1)
  show ?thesis by blast
qed

subsection \<open>Listing and pagination\<close>

lemma pages_is_ceiling:
  fixes total limit :: int
  assumes "limit > 0"
  shows "(total + limit - 1) div limit = \<lceil>real_of_int total / real_of_int limit\<rceil>"
proof -
  define z where "z = (total + limit - 1) div limit"
  define m where "m = (total + limit - 1) mod limit"
  have eq: "z * limit + m = total + limit - 1"
    unfolding z_def m_def by (rule div_mult_mod_eq)
  have m: "0 \<le> m" "m < limit"
    using assms by (simp_all add: m_def)
  have lo: "(z - 1) * limit < total"
    using eq m by (simp add: algebra_simps)
  have hi: "total \<le> z * limit"
    using eq m by (simp add: algebra_simps)
  have "real_of_int (z - 1) * real_of_int limit < real_of_int total"
    using lo by (metis of_int_less_iff of_int_mult)
  then have a: "of_int z - 1 < real_of_int total / real_of_int limit"
    using assms by (simp add: pos_less_divide_eq)
  have "real_of_int total \<le> real_of_int z * real_of_int limit"
    using hi by (metis of_int_le_iff of_int_mult)
  then have b: "real_of_int total / real_of_int limit \<le> of_int z"
    using assms by (simp add: pos_divide_le_eq)
  from a b have "\<lceil>real_of_int total / real_of_int limit\<rceil> = z"
    by (rule ceiling_unique)
  then show ?thesis by (simp add: z_def)
qed

lemma key_image:
  "(\<lambda>(b, c, p, a). book_id b) ` {x \<in> set rest. case x of (b', c', p', a') \<Rightarrow> book_id b' \<noteq> k}
   = (\<lambda>(b, c, p, a). book_id b) ` set rest - {k}"
  by force

lemma length_group_by_book_id:
  "length (group_by_book_id rows) = length (remdups (map (\<lambda>(b, c, p, a). book_id b) rows))"
proof (induction rows rule: group_by_book_id.induct)
  case 1
  show ?case by simp
next
  case (2 b c p a rest)
  let ?k = "\<lambda>(b, c, p, a). book_id b"
  let ?others = "filter (\<lambda>(b', c', p', a'). book_id b' \<noteq> book_id b) rest"
  have "length (group_by_book_id ((b, c, p, a) # rest)) = Suc (length (group_by_book_id ?others))"
    by simp
  also have "\<dots> = Suc (card (set (map ?k ?others)))"
    by (simp only: "2.IH" length_remdups_card_conv)
  also have "\<dots> = Suc (card (set (map ?k rest) - {book_id b}))"
    by (simp add: key_image)
  also have "\<dots> = card (set (map ?k ((b, c, p, a) # rest)))"
    by (simp add: card.insert_remove)
  also have "\<dots> = length (remdups (map ?k ((b, c, p, a) # rest)))"
    by (simp only: length_remdups_card_conv)
  finally show ?case .
qed

lemma books_of_groups:
  "br_book ` set (group_by_book_id rows) \<subseteq> fst ` set rows"
proof (induction rows rule: group_by_book_id.induct)
  case 1
  show ?case by simp
next
  case (2 b c p a rest)
  have "fst ` set (filter (\<lambda>(b', c', p', a'). book_id b' \<noteq> book_id b) rest) \<subseteq> fst ` set rest"
    by auto
  with "2.IH" show ?case by auto
qed


lemma length_matching_books:
  "length (matching_books e search category available d)
   = length (remdups (map (\<lambda>(b, c, p, a). book_id b)
       (filter (books_where e search category available) (joined_books d))))"
  by (simp add: matching_books_def length_group_by_book_id)

lemma get_books_unfold:
  assumes "fault e 0 = None" and "fault e 1 = None"
  shows "get_books e page limit search category available d =
    (let rows = take (nat limit) (drop (nat ((page - 1) * limit))
                  (matching_books e search category available d));
         total = int (length (matching_books e search category available d)) in
     if \<not> list_all valid_BookResponse rows then (d, Inl ResponseValidationError)
     else (d, Inr \<lparr>bl_success = True, bl_data = rows,
                   pagination = \<lparr>pg_page = page, pg_limit = limit, pg_total = total,
                                 pg_pages = (total + limit - 1) div limit\<rparr>\<rparr>))"
  using assms
  by (simp add: get_books_def bind_def execute_query_def select_books_page_def
        select_books_count_def length_matching_books raise_def return_action_def Let_def)

text \<open>
  Claim C9. For a listing request with \<open>page \<ge> 1\<close> and \<open>1 \<le> limit \<le> 100\<close> whose two
  queries reach the store and whose page rows fit \<^verbatim>\<open>BookResponse\<close>, \<^verbatim>\<open>GET /api/books\<close>
  leaves the store alone and answers with the rows at offset \<open>(page - 1) * limit\<close> of the
  matching rows, at most \<open>limit\<close> of them, with \<open>total\<close> the number of matching rows and
  \<open>pages = \<lceil>total / limit\<rceil>\<close>. In particular \<open>limit = 10\<close> and \<open>total = 95\<close> give ten
  pages, and page 10 has exactly five rows.
\<close>

theorem books_listing_pagination:
  assumes "fault e 0 = None" and "fault e 1 = None"
      and "page \<ge> 1" and "1 \<le> limit" and "limit \<le> 100"
      and "list_all valid_BookResponse
             (take (nat limit) (drop (nat ((page - 1) * limit))
                (matching_books e search category available d)))"
  shows "\<exists>r. GET_books e page limit search category available d = (d, Inr r) \<and>
           bl_data r = take (nat limit) (drop (nat ((page - 1) * limit))
                         (matching_books e search category available d)) \<and>
           pg_total (pagination r)
             = int (length (matching_books e search category available d)) \<and>
           pg_pages (pagination r)
             = \<lceil>real_of_int (pg_total (pagination r)) / real_of_int limit\<rceil> \<and>
           (limit = 10 \<and> pg_total (pagination r) = 95 \<longrightarrow>
              pg_pages (pagination r) = 10 \<and> (page = 10 \<longrightarrow> length (bl_data r) = 5))"
proof -
  define rows where "rows = take (nat limit) (drop (nat ((page - 1) * limit))
                  (matching_books e search category available d))"
  define total where "total = int (length (matching_books e search category available d))"
  define r where "r = \<lparr>bl_success = True, bl_data = rows,
                   pagination = \<lparr>pg_page = page, pg_limit = limit, pg_total = total,
                                 pg_pages = (total + limit - 1) div limit\<rparr>\<rparr>"
  have g: "GET_books e page limit search category available d = (d, Inr r)"
    using assms(3,4,5,6)
    by (simp add: GET_books_def get_books_unfold [OF assms(1,2)] Let_def r_def rows_def
          total_def)
  have c: "pg_pages (pagination r) = \<lceil>real_of_int (pg_total (pagination r)) / real_of_int limit\<rceil>"
    using assms(4) by (simp add: r_def pages_is_ceiling)
  have n: "limit = 10 \<and> pg_total (pagination r) = 95 \<longrightarrow>
              pg_pages (pagination r) = 10 \<and> (page = 10 \<longrightarrow> length (bl_data r) = 5)"
  proof (intro impI conjI)
    assume a: "limit = 10 \<and> pg_total (pagination r) = 95"
    then have t: "total = 95" by (simp add: r_def)
    with a show "pg_pages (pagination r) = 10" by (simp add: r_def)
    assume "page = 10"
    moreover from t have "length (matching_books e search category available d) = 95"
      by (simp add: total_def)
    ultimately show "length (bl_data r) = 5"
      using a by (simp add: r_def rows_def)
  qed
  from g c n show ?thesis
    by (intro exI [of _ r]) (simp add: r_def rows_def total_def)
qed


lemma joined_books_catalogue:
  "joined_books catalogue = map (\<lambda>b. (b, Some ''Fiction'', None, None)) (books catalogue)"
  by (simp add: joined_books_def author_names_def catalogue_def library_def book_B_def
        comp_def)

lemma books_where_unfiltered: "filter (books_where e None None None) rows = rows"
  by (simp add: books_where_def split_def)

lemma length_matching_catalogue:
  "length (matching_books calm None None None catalogue) = 95"
proof -
  have "map (\<lambda>(b, c, p, a). book_id b) (joined_books catalogue) = map int [1..<96]"
    unfolding joined_books_catalogue by (simp add: catalogue_def comp_def)
  moreover have "distinct (map int [1..<96])"
    by (simp add: distinct_map)
  ultimately show ?thesis
    by (simp add: length_matching_books books_where_unfiltered distinct_remdups_id
          del: upt_Suc)
qed

lemma valid_matching_catalogue:
  "list_all valid_BookResponse (take n (drop k (matching_books calm None None None catalogue)))"
proof -
  have "valid_BookResponse r" if "r \<in> set (matching_books calm None None None catalogue)" for r
  proof -
    from that have "br_book r \<in> br_book ` set (group_by_book_id (joined_books catalogue))"
      by (simp add: matching_books_def books_where_unfiltered)
    with books_of_groups have "br_book r \<in> fst ` set (joined_books catalogue)" by blast
    then have "br_book r \<in> set (books catalogue)"
      by (auto simp: joined_books_catalogue)
    then obtain i where "br_book r = book_B\<lparr>book_id := int i,
                                        isbn := ''97800000000'' @ two_digits i\<rparr>"
      by (auto simp: catalogue_def)
    then show ?thesis by (simp add: valid_BookResponse_def book_B_def)
  qed
  moreover have "set (take n (drop k (matching_books calm None None None catalogue)))
        \<subseteq> set (matching_books calm None None None catalogue)"
    by (meson set_take_subset set_drop_subset subset_trans)
  ultimately show ?thesis
    by (auto simp: list_all_iff)
qed

theorem books_listing_pagination_witness:
  "\<exists>r. GET_books calm 10 10 None None None catalogue = (catalogue, Inr r) \<and>
       pg_total (pagination r) = 95 \<and> pg_pages (pagination r) = 10 \<and>
       length (bl_data r) = 5 \<and>
       bl_data r = take 10 (drop 90 (matching_books calm None None None catalogue))"
proof -
  have "fault calm 0 = None" "fault calm 1 = None" "(10::int) \<ge> 1" "1 \<le> (10::int)"
       "(10::int) \<le> 100"
    by (simp_all add: calm_def)
  from books_listing_pagination [OF this valid_matching_catalogue]
  obtain r where
    "GET_books calm 10 10 None None None catalogue = (catalogue, Inr r)"
    "bl_data r = take (nat 10) (drop (nat ((10 - 1) * 10))
                   (matching_books calm None None None catalogue))"
    "pg_total (pagination r) = int (length (matching_books calm None None None catalogue))"
    "(10::int) = 10 \<and> pg_total (pagination r) = 95 \<longrightarrow>
       pg_pages (pagination r) = 10 \<and> ((10::int) = 10 \<longrightarrow> length (bl_data r) = 5)"
    by blast
  then show ?thesis
    by (intro exI [of _ r]) (simp add: length_matching_catalogue)
qed

subsection \<open>Borrowing and returning in sequence\<close>

lemma find_books_add_copies:
  "find (\<lambda>x. book_id x = b) (books_add_copies j b bs)
   = map_option (\<lambda>x. x\<lparr>available_copies := available_copies x + j\<rparr>)
       (find (\<lambda>x. book_id x = b) bs)"
  by (induction bs) (simp_all add: books_add_copies_def)

lemma copies_available_add:
  "books d' = books_add_copies j b (books d) \<Longrightarrow>
   copies_available d' b = map_option (\<lambda>x. x + j) (copies_available d b)"
  by (simp add: copies_available_def the_book_def find_books_add_copies option.map_comp comp_def)

lemma create_loan_success:
  assumes "create_loan e loan d = (d', Inr v)"
  shows "d' = d\<lparr>loan_transactions := loan_transactions d @
                   [new_loan (next_transaction_id d) (now e) (lc_member_id loan)
                      (lc_book_id loan) (lc_staff_id loan) (lc_loan_date loan)
                      (lc_due_date loan) (lc_notes loan)],
                 next_transaction_id := next_transaction_id d + 1,
                 books := books_add_copies (- 1) (lc_book_id loan) (books d)\<rparr>"
    and "\<exists>bk. the_book d (lc_book_id loan) = Some bk \<and> available_copies bk > 0"
    and "\<exists>m limit. the_member d (lc_member_id loan) = Some m \<and> is_active m \<and>
           max_books_allowed m = Some limit \<and> active_loans d (lc_member_id loan) < limit"
  using assms unfolding create_loan_unfold
  by (simp_all split: option.splits if_splits)

lemma post_loans_success:
  assumes "post_loans e rq d = (d', Inr v)"
  shows "\<exists>loan. create_loan e loan d = (d', Inr v) \<and> lc_book_id loan = rq_book_id rq \<and>
           lc_member_id loan = rq_member_id rq"
proof (cases "parse_LoanCreate (today e) rq")
  case (Inl x)
  with assms show ?thesis by (simp add: post_loans_def raise_def)
next
  case (Inr loan)
  then have "lc_book_id loan = rq_book_id rq \<and> lc_member_id loan = rq_member_id rq"
    by (auto simp: parse_LoanCreate_def Let_def split: if_splits)
  moreover from assms Inr have "create_loan e loan d = (d', Inr v)"
    by (simp add: post_loans_def)
  ultimately show ?thesis by blast
qed


lemma serve_append: "serve (xs @ ys) d = serve ys (serve xs d)"
  by (induction xs arbitrary: d) auto

lemma all_succeed_append:
  "all_succeed (xs @ ys) d \<longleftrightarrow> all_succeed xs d \<and> all_succeed ys (serve xs d)"
proof (induction xs arbitrary: d)
  case Nil
  show ?case by simp
next
  case (Cons x xs)
  obtain e r where x: "x = (e, r)" by (cases x)
  obtain d' res where s: "endpoint e r d = (d', res)" by (cases "endpoint e r d")
  show ?case
    by (cases res) (simp_all add: x s Cons.IH)
qed

text \<open>The borrow phase.\<close>

lemma borrow_phase:
  assumes "list_all (\<lambda>(e, rq). rq_book_id rq = b) borrows"
      and "all_succeed (map (\<lambda>(e, rq). (e, POST_loans rq)) borrows) d"
      and "copies_available d b = Some k"
  shows "\<exists>news. loan_transactions (serve (map (\<lambda>(e, rq). (e, POST_loans rq)) borrows) d)
                  = loan_transactions d @ news \<and>
               map transaction_id news
                  = map (\<lambda>i. next_transaction_id d + int i) [0..<length borrows] \<and>
               list_all (\<lambda>l. loan_status l = Active \<and> loan_book_id l = b) news \<and>
               copies_available (serve (map (\<lambda>(e, rq). (e, POST_loans rq)) borrows) d) b
                  = Some (k - int (length borrows)) \<and>
               (borrows \<noteq> [] \<longrightarrow> int (length borrows) \<le> k)"
  using assms
proof (induction borrows arbitrary: d k)
  case Nil
  then show ?case by simp
next
  case (Cons x rest)
  obtain e rq where x: "x = (e, rq)" by (cases x)
  from Cons.prems(1) x have bk: "rq_book_id rq = b"
    and rest: "list_all (\<lambda>(e, rq). rq_book_id rq = b) rest" by simp_all
  obtain d' res where s: "post_loans e rq d = (d', res)" by (cases "post_loans e rq d")
  from Cons.prems(2) x s obtain v where res: "res = Inr v"
    and ok: "all_succeed (map (\<lambda>(e, rq). (e, POST_loans rq)) rest) d'"
    by (cases res) simp_all
  from s res post_loans_success obtain loan where
    cl: "create_loan e loan d = (d', Inr v)" and lb: "lc_book_id loan = b"
    using bk by blast
  define l where "l = new_loan (next_transaction_id d) (now e) (lc_member_id loan)
                      (lc_book_id loan) (lc_staff_id loan) (lc_loan_date loan)
                      (lc_due_date loan) (lc_notes loan)"
  from create_loan_success(1) [OF cl]
  have d': "loan_transactions d' = loan_transactions d @ [l]"
           "next_transaction_id d' = next_transaction_id d + 1"
           "books d' = books_add_copies (- 1) b (books d)"
    by (simp_all add: l_def lb)
  from create_loan_success(2) [OF cl] Cons.prems(3) have kpos: "k > 0"
    by (auto simp: copies_available_def lb)
  from d'(3) Cons.prems(3) have c': "copies_available d' b = Some (k - 1)"
    by (simp add: copies_available_add)
  from Cons.IH [OF rest ok c'] obtain news where
    n1: "loan_transactions (serve (map (\<lambda>(e, rq). (e, POST_loans rq)) rest) d')
          = loan_transactions d' @ news"
    and n2: "map transaction_id news
          = map (\<lambda>i. next_transaction_id d' + int i) [0..<length rest]"
    and n3: "list_all (\<lambda>l. loan_status l = Active \<and> loan_book_id l = b) news"
    and n4: "copies_available (serve (map (\<lambda>(e, rq). (e, POST_loans rq)) rest) d') b
          = Some (k - 1 - int (length rest))"
    and n5: "rest \<noteq> [] \<longrightarrow> int (length rest) \<le> k - 1"
    by blast
  from n5 kpos have n6: "int (length (x # rest)) \<le> k"
    by (cases rest) simp_all
  have sv: "serve (map (\<lambda>(e, rq). (e, POST_loans rq)) (x # rest)) d
            = serve (map (\<lambda>(e, rq). (e, POST_loans rq)) rest) d'"
    by (simp add: x s)
  have l: "transaction_id l = next_transaction_id d" "loan_status l = Active"
          "loan_book_id l = b"
    by (simp_all add: l_def new_loan_def lb)
  have ids: "map transaction_id (l # news)
             = map (\<lambda>i. next_transaction_id d + int i) [0..<length (x # rest)]"
  proof -
    have "[0..<length (x # rest)] = 0 # map Suc [0..<length rest]"
      by (simp add: upt_conv_Cons map_Suc_upt del: upt_Suc)
    then show ?thesis
      by (simp add: l(1) n2 d'(2) comp_def add.assoc del: upt_Suc)
  qed
  show ?case
    unfolding sv
    by (intro exI [of _ "l # news"] conjI)
       (use n1 d'(1) ids n3 l n4 n6 in \<open>simp_all add: algebra_simps\<close>)
qed


text \<open>The return phase.\<close>

lemma find_SomeD: "find P xs = Some x \<Longrightarrow> P x \<and> x \<in> set xs"
  by (induction xs) (simp_all split: if_splits)

lemma find_exists: "x \<in> set xs \<Longrightarrow> P x \<Longrightarrow> \<exists>y. find P xs = Some y"
  by (induction xs) auto

lemma marked_keeps_ids:
  "map transaction_id (loans_mark_returned day t tid ls) = map transaction_id ls"
  by (induction ls) (simp_all add: loans_mark_returned_def)

lemma marked_others_unchanged:
  "filter (\<lambda>l. transaction_id l \<noteq> tid) (loans_mark_returned day t tid ls)
   = filter (\<lambda>l. transaction_id l \<noteq> tid) ls"
  by (induction ls) (simp_all add: loans_mark_returned_def)

lemma marked_other_in:
  assumes "l \<in> set (loans_mark_returned day t tid ls)" and "transaction_id l \<noteq> tid"
  shows "l \<in> set ls"
proof -
  from assms have "l \<in> set (filter (\<lambda>l. transaction_id l \<noteq> tid)
                               (loans_mark_returned day t tid ls))"
    by simp
  then show ?thesis by (simp add: marked_others_unchanged)
qed

lemma return_phase:
  assumes "distinct (map snd returns)"
      and "list_all (\<lambda>(e, tid). return_unhindered e) returns"
      and "\<forall>t \<in> set (map snd returns). t \<in> set (map transaction_id (loan_transactions d))"
      and "\<forall>l \<in> set (loan_transactions d). transaction_id l \<in> set (map snd returns) \<longrightarrow>
             loan_status l = Active \<and> loan_book_id l = b"
      and "copies_available d b = Some a"
  shows "all_succeed (map (\<lambda>(e, tid). (e, PUT_loans_return tid)) returns) d \<and>
         copies_available (serve (map (\<lambda>(e, tid). (e, PUT_loans_return tid)) returns) d) b
           = Some (a + int (length returns))"
  using assms
proof (induction returns arbitrary: d a)
  case Nil
  then show ?case by simp
next
  case (Cons x rest)
  obtain e tid where x: "x = (e, tid)" by (cases x)
  from Cons.prems(1) x have dist: "distinct (map snd rest)" and fresh: "tid \<notin> set (map snd rest)"
    by simp_all
  from Cons.prems(2) x have un: "return_unhindered e"
    and un_rest: "list_all (\<lambda>(e, tid). return_unhindered e) rest" by simp_all
  from Cons.prems(3) x obtain l0 where l0: "l0 \<in> set (loan_transactions d)"
    "transaction_id l0 = tid" by auto
  with Cons.prems(4) x have "loan_status l0 = Active" by simp
  with l0 find_exists [of l0 "loan_transactions d"
                         "\<lambda>l. transaction_id l = tid \<and> loan_status l = Active"]
  obtain l where f: "find (\<lambda>l. transaction_id l = tid \<and> loan_status l = Active)
                       (loan_transactions d) = Some l"
    by blast
  from find_SomeD [OF f] have "l \<in> set (loan_transactions d)" "transaction_id l = tid"
    by simp_all
  with Cons.prems(4) x have lb: "loan_book_id l = b" by simp
  define d' where "d' = d\<lparr>loan_transactions :=
                          loans_mark_returned (today e) (now e) tid (loan_transactions d),
                       books := books_add_copies 1 b (books d)\<rparr>"
  from un f lb have rb: "return_book e tid d
      = (d', Inr \<lparr>success = True, message = ''Book returned successfully'', data = None\<rparr>)"
    by (simp add: return_book_unfold return_unhindered_def d'_def)
  have p3: "\<forall>t \<in> set (map snd rest). t \<in> set (map transaction_id (loan_transactions d'))"
    using Cons.prems(3) x by (simp add: d'_def marked_keeps_ids)
  have p4: "\<forall>l \<in> set (loan_transactions d'). transaction_id l \<in> set (map snd rest) \<longrightarrow>
             loan_status l = Active \<and> loan_book_id l = b"
  proof (intro ballI impI)
    fix l'
    assume in': "l' \<in> set (loan_transactions d')"
       and id': "transaction_id l' \<in> set (map snd rest)"
    from id' fresh have "transaction_id l' \<noteq> tid" by auto
    with in' have "l' \<in> set (loan_transactions d)"
      by (simp add: d'_def marked_other_in)
    with Cons.prems(4) id' x show "loan_status l' = Active \<and> loan_book_id l' = b"
      by simp
  qed
  have p5: "copies_available d' b = Some (a + 1)"
    using Cons.prems(5) by (simp add: copies_available_add d'_def)
  from Cons.IH [OF dist un_rest p3 p4 p5]
  show ?case
    by (simp add: x rb algebra_simps)
qed


text \<open>
  Claim C7. Let a book have \<open>k\<close> available copies in a store whose transaction
  identities are fresh. After \<open>N\<close> successful \<^verbatim>\<open>POST /api/loans\<close> for that book (by any
  members, in any environments) it has \<open>k - N\<close> available copies, and \<open>N \<le> k\<close> whenever
  \<open>N > 0\<close>. The loans created are the \<open>N\<close> transactions with the identities handed out
  from \<^verbatim>\<open>next_transaction_id\<close> on; returning each of them once, in any order, with
  gateway calls that reach the store, succeeds every time and brings the book back to
  exactly \<open>k\<close> available copies.
\<close>

theorem borrows_then_returns_restore_copies:
  assumes "fresh_transaction_ids d"
      and "copies_available d b = Some k"
      and "list_all (\<lambda>(e, rq). rq_book_id rq = b) borrows"
      and "all_succeed (map (\<lambda>(e, rq). (e, POST_loans rq)) borrows) d"
      and "distinct (map snd returns)"
      and "set (map snd returns)
             = {next_transaction_id d ..< next_transaction_id d + int (length borrows)}"
      and "list_all (\<lambda>(e, tid). return_unhindered e) returns"
  shows "copies_available (serve (map (\<lambda>(e, rq). (e, POST_loans rq)) borrows) d) b
           = Some (k - int (length borrows)) \<and>
         (borrows \<noteq> [] \<longrightarrow> int (length borrows) \<le> k) \<and>
         length returns = length borrows \<and>
         all_succeed (map (\<lambda>(e, tid). (e, PUT_loans_return tid)) returns)
           (serve (map (\<lambda>(e, rq). (e, POST_loans rq)) borrows) d) \<and>
         copies_available
           (serve (map (\<lambda>(e, rq). (e, POST_loans rq)) borrows @
                   map (\<lambda>(e, tid). (e, PUT_loans_return tid)) returns) d) b = Some k"
proof -
  let ?n = "next_transaction_id d"
  let ?N = "length borrows"
  let ?d1 = "serve (map (\<lambda>(e, rq). (e, POST_loans rq)) borrows) d"
  from borrow_phase [OF assms(3,4,2)] obtain news where
    n1: "loan_transactions ?d1 = loan_transactions d @ news"
    and n2: "map transaction_id news = map (\<lambda>i. ?n + int i) [0..<?N]"
    and n3: "list_all (\<lambda>l. loan_status l = Active \<and> loan_book_id l = b) news"
    and n4: "copies_available ?d1 b = Some (k - int ?N)"
    and n5: "borrows \<noteq> [] \<longrightarrow> int ?N \<le> k"
    by blast
  have ids: "set (map transaction_id news) = {?n ..< ?n + int ?N}"
  proof -
    have "(\<lambda>i. ?n + int i) ` {0..<?N} = {?n ..< ?n + int ?N}"
    proof (intro set_eqI iffI)
      fix t assume "t \<in> (\<lambda>i. ?n + int i) ` {0..<?N}"
      then show "t \<in> {?n ..< ?n + int ?N}" by auto
    next
      fix t assume t: "t \<in> {?n ..< ?n + int ?N}"
      then have "t = ?n + int (nat (t - ?n))" "nat (t - ?n) < ?N" by auto
      then show "t \<in> (\<lambda>i. ?n + int i) ` {0..<?N}" by (metis atLeastLessThan_iff imageI le0)
    qed
    moreover have "set (map transaction_id news) = (\<lambda>i. ?n + int i) ` {0..<?N}"
      by (simp only: n2 set_map set_upt)
    ultimately show ?thesis by (simp only:)
  qed
  have len: "length returns = ?N"
  proof -
    have "length returns = card (set (map snd returns))"
      using assms(5) by (metis distinct_card length_map)
    also have "\<dots> = card {?n ..< ?n + int ?N}" by (simp only: assms(6))
    also have "\<dots> = ?N" by simp
    finally show ?thesis .
  qed
  have p3: "\<forall>t \<in> set (map snd returns). t \<in> set (map transaction_id (loan_transactions ?d1))"
    unfolding assms(6) n1 using ids by auto
  have p4: "\<forall>l \<in> set (loan_transactions ?d1). transaction_id l \<in> set (map snd returns) \<longrightarrow>
              loan_status l = Active \<and> loan_book_id l = b"
  proof (intro ballI impI)
    fix l
    assume l: "l \<in> set (loan_transactions ?d1)"
       and t: "transaction_id l \<in> set (map snd returns)"
    from t have ge: "?n \<le> transaction_id l" by (simp only: assms(6)) simp
    have "l \<notin> set (loan_transactions d)"
    proof
      assume "l \<in> set (loan_transactions d)"
      with assms(1) have "transaction_id l < ?n"
        by (simp add: fresh_transaction_ids_def list_all_iff)
      with ge show False by simp
    qed
    with l n1 have "l \<in> set news" by simp
    with n3 show "loan_status l = Active \<and> loan_book_id l = b"
      by (simp add: list_all_iff)
  qed
  from return_phase [OF assms(5,7) p3 p4 n4]
  have r: "all_succeed (map (\<lambda>(e, tid). (e, PUT_loans_return tid)) returns) ?d1"
    "copies_available (serve (map (\<lambda>(e, tid). (e, PUT_loans_return tid)) returns) ?d1) b
       = Some (k - int ?N + int (length returns))"
    by simp_all
  from n4 n5 len r show ?thesis
    by (simp add: serve_append)
qed


lemma generous_two_borrows:
  "all_succeed [(calm, POST_loans borrow_B), (calm, POST_loans borrow_B)] generous_library"
  by (simp add: post_loans_def parse_LoanCreate_def validate_due_date_def create_loan_unfold
        generous_library_def example_defs the_book_def the_member_def active_loans_def
        books_add_copies_def new_loan_def)

theorem borrows_then_returns_restore_copies_witness:
  "copies_available generous_library 1 = Some 3 \<and>
   copies_available
     (serve [(calm, POST_loans borrow_B), (calm, POST_loans borrow_B)] generous_library) 1
     = Some 1 \<and>
   all_succeed [(calm, PUT_loans_return 2), (calm, PUT_loans_return 1)]
     (serve [(calm, POST_loans borrow_B), (calm, POST_loans borrow_B)] generous_library) \<and>
   copies_available
     (serve [(calm, POST_loans borrow_B), (calm, POST_loans borrow_B),
             (calm, PUT_loans_return 2), (calm, PUT_loans_return 1)] generous_library) 1
     = Some 3"
proof -
  have h1: "fresh_transaction_ids generous_library"
    by (simp add: fresh_transaction_ids_def generous_library_def library_def)
  have h2: "copies_available generous_library 1 = Some 3"
    by (simp add: copies_available_def the_book_def generous_library_def library_def book_B_def)
  have h3: "list_all (\<lambda>(e, rq). rq_book_id rq = 1) [(calm, borrow_B), (calm, borrow_B)]"
    by (simp add: borrow_B_def)
  have h4: "all_succeed (map (\<lambda>(e, rq). (e, POST_loans rq)) [(calm, borrow_B), (calm, borrow_B)])
              generous_library"
    using generous_two_borrows by simp
  have h5: "distinct (map snd [(calm, 2::int), (calm, 1)])" by simp
  have h6: "set (map snd [(calm, 2::int), (calm, 1)])
             = {next_transaction_id generous_library ..<
                next_transaction_id generous_library
                  + int (length [(calm, borrow_B), (calm, borrow_B)])}"
    by (auto simp: generous_library_def library_def)
  have h7: "list_all (\<lambda>(e, tid). return_unhindered e) [(calm, 2::int), (calm, 1)]"
    by (simp add: return_unhindered_def calm_def)
  from borrows_then_returns_restore_copies [OF h1 h2 h3 h4 h5 h6 h7] h2
  show ?thesis by simp
qed

subsection \<open>Loan limits over runs of requests\<close>

lemma lending_cong:
  assumes "lending d' = lending d"
  shows "within_limits d' = within_limits d" and "member_ids_ok d' = member_ids_ok d"
proof -
  from assms have eq: "members d' = members d" "loan_transactions d' = loan_transactions d"
    "next_member_id d' = next_member_id d"
    by (simp_all add: lending_def)
  then have "active_loans d' mid = active_loans d mid" for mid
    by (simp add: active_loans_def)
  with eq show "within_limits d' = within_limits d"
    by (simp add: within_limits_def cong: option.case_cong)
  from eq show "member_ids_ok d' = member_ids_ok d"
    by (simp add: member_ids_ok_def)
qed

lemma lending_bind:
  assumes "\<And>d. lending (fst (m d)) = lending d"
      and "\<And>v d. lending (fst (f v d)) = lending d"
  shows "lending (fst (bind m f d)) = lending d"
proof (cases "m d")
  case (Pair d' res)
  with assms(1) [of d] have "lending d' = lending d" by simp
  with Pair assms(2) show ?thesis
    by (cases res) (simp_all add: bind_def)
qed

lemma lending_execute_query:
  assumes "\<And>d' r. q d = Inr (d', r) \<Longrightarrow> lending d' = lending d"
  shows "lending (fst (execute_query flt q d)) = lending d"
  using assms by (auto simp: execute_query_def split: option.splits sum.splits)

lemma lending_raise: "lending (fst (raise x d)) = lending d"
  by (simp add: raise_def)

lemma lending_return: "lending (fst (return_action v d)) = lending d"
  by (simp add: return_action_def)

lemma lending_insert_authors:
  "lending (fst (insert_authors e k bid entries d)) = lending d"
proof -
  have "lending (fst (insert_authors e k bid entries d))
        = lending ((fst (insert_authors e k bid entries d))\<lparr>book_authors := []\<rparr>)"
    by (simp add: lending_def)
  also have "\<dots> = lending (d\<lparr>book_authors := []\<rparr>)"
    by (simp only: insert_authors_frame')
  finally show ?thesis by (simp add: lending_def)
qed

lemma lending_except:
  "lending (fst (except_IntegrityError body h d)) = lending (fst (body d))"
proof (cases "body d")
  case (Pair d' res)
  show ?thesis
  proof (cases res)
    case (Inl x)
    with Pair show ?thesis by (cases x) (simp_all add: except_IntegrityError_def)
  next
    case (Inr v)
    with Pair show ?thesis by (simp add: except_IntegrityError_def)
  qed
qed

lemma insert_authors_keeps:
  "members (fst (insert_authors e k bid entries d)) = members d"
  "loan_transactions (fst (insert_authors e k bid entries d)) = loan_transactions d"
  "next_member_id (fst (insert_authors e k bid entries d)) = next_member_id d"
  using lending_insert_authors [of e k bid entries d] by (simp_all add: lending_def)

lemma lending_create_book: "lending (fst (create_book e b d)) = lending d"
  unfolding create_book_def lending_except Let_def
  by (intro lending_bind lending_return)
     (auto simp: execute_transaction_single insert_book_def Let_def lending_def
        execute_query_def select_last_insert_id_def return_action_def
        insert_authors_keeps
        split: option.splits sum.splits if_splits)

lemma lending_update_book: "lending (fst (update_book e bid u d)) = lending d"
proof -
  have "lending (fst (update_book e bid u d))
        = lending ((fst (update_book e bid u d))\<lparr>book_authors := []\<rparr>)"
    by (simp add: lending_def)
  moreover from update_book_effect [where e = e and bid = bid and u = u and d = d and X = "[]"]
  have "lending ((fst (update_book e bid u d))\<lparr>book_authors := []\<rparr>) = lending d"
    by (elim disjE) (simp_all add: lending_def)
  ultimately show ?thesis by simp
qed

lemma lending_delete_book: "lending (fst (delete_book e bid d)) = lending d"
  unfolding delete_book_def
  by (simp add: lending_def bind_def execute_query_def select_book_exists_def
        count_active_loans_of_book_def delete_from_books_def raise_def return_action_def
      split: option.splits)


lemma within_limits_iff:
  "within_limits d \<longleftrightarrow>
     (\<forall>m \<in> set (members d). \<forall>k. max_books_allowed m = Some k \<longrightarrow>
        active_loans d (member_id m) \<le> k)"
  by (auto simp: within_limits_def list_all_iff split: option.splits)

lemma member_ids_ok_iff:
  "member_ids_ok d \<longleftrightarrow>
     distinct (map member_id (members d)) \<and>
     (\<forall>m \<in> set (members d). member_id m < next_member_id d) \<and>
     (\<forall>l \<in> set (loan_transactions d). loan_member_id l < next_member_id d)"
  by (simp add: member_ids_ok_def list_all_iff)

lemma the_member_unique:
  assumes "distinct (map member_id (members d))" and "the_member d mid = Some m"
      and "m' \<in> set (members d)" and "member_id m' = mid"
  shows "m' = m"
proof -
  from assms(2) have "m \<in> set (members d)" "member_id m = mid"
    using find_SomeD [of "\<lambda>m. member_id m = mid" "members d" m]
    by (simp_all add: the_member_def)
  moreover from assms(1) have "inj_on member_id (set (members d))"
    by (simp add: distinct_map)
  ultimately show ?thesis using assms(3,4) by (auto dest: inj_onD)
qed

lemma active_loans_append:
  "loan_transactions d' = loan_transactions d @ [l] \<Longrightarrow>
   active_loans d' mid
     = active_loans d mid + (if loan_member_id l = mid \<and> loan_status l = Active then 1 else 0)"
  by (simp add: active_loans_def)

lemma borrow_keeps_limits:
  assumes ok: "member_ids_ok d" and wl: "within_limits d"
      and m: "the_member d mid = Some m" "max_books_allowed m = Some limit"
             "active_loans d mid < limit"
      and d': "lending d' = (members d, loan_transactions d @ [l], next_member_id d)"
      and l: "loan_member_id l = mid"
  shows "member_ids_ok d' \<and> within_limits d'"
proof
  from d' have eq: "members d' = members d" "loan_transactions d' = loan_transactions d @ [l]"
    "next_member_id d' = next_member_id d"
    by (simp_all add: lending_def)
  from m(1) have "m \<in> set (members d)" "member_id m = mid"
    using find_SomeD [of "\<lambda>m. member_id m = mid" "members d" m]
    by (simp_all add: the_member_def)
  with ok have "mid < next_member_id d" by (auto simp: member_ids_ok_iff)
  with ok eq l show "member_ids_ok d'" by (simp add: member_ids_ok_iff)
  show "within_limits d'"
    unfolding within_limits_iff
  proof (intro ballI allI impI)
    fix m' k
    assume in': "m' \<in> set (members d')" and k: "max_books_allowed m' = Some k"
    from in' eq have in_d: "m' \<in> set (members d)" by simp
    show "active_loans d' (member_id m') \<le> k"
    proof (cases "member_id m' = mid")
      case True
      with ok m(1) in_d have "m' = m" by (auto simp: member_ids_ok_iff intro: the_member_unique)
      with k m(2) have "k = limit" by simp
      with m(3) True show ?thesis by (simp add: active_loans_append [OF eq(2)])
    next
      case False
      with l have "active_loans d' (member_id m') = active_loans d (member_id m')"
        by (simp add: active_loans_append [OF eq(2)])
      with wl in_d k show ?thesis by (simp add: within_limits_iff)
    qed
  qed
qed

lemma active_loans_marked:
  "loan_transactions d' = loans_mark_returned day t tid (loan_transactions d) \<Longrightarrow>
   active_loans d' mid \<le> active_loans d mid"
proof -
  have "length (filter (\<lambda>l. loan_member_id l = mid \<and> loan_status l = Active)
                  (loans_mark_returned day t tid ls))
        \<le> length (filter (\<lambda>l. loan_member_id l = mid \<and> loan_status l = Active) ls)" for ls
    by (induction ls) (simp_all add: loans_mark_returned_def)
  then show "loan_transactions d' = loans_mark_returned day t tid (loan_transactions d) \<Longrightarrow>
             active_loans d' mid \<le> active_loans d mid"
    by (simp add: active_loans_def)
qed

lemma marked_keeps_members:
  "map loan_member_id (loans_mark_returned day t tid ls) = map loan_member_id ls"
  by (induction ls) (simp_all add: loans_mark_returned_def)

lemma return_keeps_limits:
  assumes ok: "member_ids_ok d" and wl: "within_limits d"
      and d': "lending d' = (members d,
                 loans_mark_returned day t tid (loan_transactions d), next_member_id d)"
  shows "member_ids_ok d' \<and> within_limits d'"
proof
  from d' have eq: "members d' = members d"
    "loan_transactions d' = loans_mark_returned day t tid (loan_transactions d)"
    "next_member_id d' = next_member_id d"
    by (simp_all add: lending_def)
  have "(\<forall>x \<in> set (map loan_member_id (loan_transactions d')). x < next_member_id d)
        = (\<forall>x \<in> set (map loan_member_id (loan_transactions d)). x < next_member_id d)"
    by (simp only: eq(2) marked_keeps_members)
  then have "(\<forall>l \<in> set (loan_transactions d'). loan_member_id l < next_member_id d)
             = (\<forall>l \<in> set (loan_transactions d). loan_member_id l < next_member_id d)"
    by simp
  with ok eq show "member_ids_ok d'" by (simp add: member_ids_ok_iff)
  show "within_limits d'"
    unfolding within_limits_iff
  proof (intro ballI allI impI)
    fix m' k
    assume "m' \<in> set (members d')" and "max_books_allowed m' = Some k"
    with wl eq have "active_loans d (member_id m') \<le> k" by (simp add: within_limits_iff)
    with active_loans_marked [OF eq(2), of "member_id m'"]
    show "active_loans d' (member_id m') \<le> k" by simp
  qed
qed


lemma mapped_members_keep_limits:
  assumes ok: "member_ids_ok d" and wl: "within_limits d"
      and d': "lending d' = (map g (members d), loan_transactions d, next_member_id d)"
      and id: "\<And>m. m \<in> set (members d) \<Longrightarrow> member_id (g m) = member_id m"
      and mx: "\<And>m k. m \<in> set (members d) \<Longrightarrow> max_books_allowed (g m) = Some k \<Longrightarrow>
                 max_books_allowed m = Some k \<or> active_loans d (member_id m) \<le> k"
  shows "member_ids_ok d' \<and> within_limits d'"
proof
  from d' have eq: "members d' = map g (members d)"
    "loan_transactions d' = loan_transactions d" "next_member_id d' = next_member_id d"
    by (simp_all add: lending_def)
  from id have ids: "map member_id (map g (members d)) = map member_id (members d)"
    by simp
  have "(\<forall>x \<in> set (map member_id (members d')). x < next_member_id d)
        = (\<forall>x \<in> set (map member_id (members d)). x < next_member_id d)"
    by (simp only: eq(1) ids)
  then have "(\<forall>m \<in> set (members d'). member_id m < next_member_id d)
        = (\<forall>m \<in> set (members d). member_id m < next_member_id d)"
    by simp
  moreover have "distinct (map member_id (members d')) = distinct (map member_id (members d))"
    by (simp only: eq(1) ids)
  ultimately show "member_ids_ok d'"
    using ok eq(2,3) by (simp add: member_ids_ok_iff)
  have al: "active_loans d' mid = active_loans d mid" for mid
    by (simp add: active_loans_def eq(2))
  show "within_limits d'"
    unfolding within_limits_iff
  proof (intro ballI allI impI)
    fix m' k
    assume "m' \<in> set (members d')" and k: "max_books_allowed m' = Some k"
    then obtain m where m: "m \<in> set (members d)" "m' = g m"
      by (auto simp: eq(1))
    from mx [OF m(1)] k m(2)
    have "max_books_allowed m = Some k \<or> active_loans d (member_id m) \<le> k" by simp
    with wl m(1) have "active_loans d (member_id m) \<le> k"
      by (auto simp: within_limits_iff)
    with id [OF m(1)] m(2) show "active_loans d' (member_id m') \<le> k"
      by (simp add: al)
  qed
qed



lemma new_member_keeps_limits:
  assumes ok: "member_ids_ok d" and wl: "within_limits d"
      and d': "lending d' = (members d @ [nm], loan_transactions d, next_member_id d + 1)"
      and nm: "member_id nm = next_member_id d"
              "\<And>k. max_books_allowed nm = Some k \<Longrightarrow> 0 \<le> k"
  shows "member_ids_ok d' \<and> within_limits d'"
proof
  from d' have eq: "members d' = members d @ [nm]"
    "loan_transactions d' = loan_transactions d" "next_member_id d' = next_member_id d + 1"
    by (simp_all add: lending_def)
  from ok have "next_member_id d \<notin> set (map member_id (members d))"
    by (auto simp: member_ids_ok_iff)
  moreover have "\<forall>m \<in> set (members d). member_id m < next_member_id d + 1"
  proof
    fix m assume "m \<in> set (members d)"
    with ok have "member_id m < next_member_id d" by (simp add: member_ids_ok_iff)
    then show "member_id m < next_member_id d + 1" by simp
  qed
  moreover have "\<forall>l \<in> set (loan_transactions d). loan_member_id l < next_member_id d + 1"
  proof
    fix l assume "l \<in> set (loan_transactions d)"
    with ok have "loan_member_id l < next_member_id d" by (simp add: member_ids_ok_iff)
    then show "loan_member_id l < next_member_id d + 1" by simp
  qed
  moreover from ok have "distinct (map member_id (members d))"
    by (simp add: member_ids_ok_iff)
  ultimately show "member_ids_ok d'"
    using eq nm(1) by (simp add: member_ids_ok_iff)
  have al: "active_loans d' mid = active_loans d mid" for mid
    by (simp add: active_loans_def eq(2))
  from ok have "filter (\<lambda>l. loan_member_id l = next_member_id d \<and> loan_status l = Active)
                  (loan_transactions d) = []"
    by (auto simp: member_ids_ok_iff filter_empty_conv)
  then have zero: "active_loans d (next_member_id d) = 0"
    by (simp add: active_loans_def)
  show "within_limits d'"
    unfolding within_limits_iff
  proof (intro ballI allI impI)
    fix m' k
    assume in': "m' \<in> set (members d')" and k: "max_books_allowed m' = Some k"
    from in' eq(1) have "m' \<in> set (members d) \<or> m' = nm" by auto
    then show "active_loans d' (member_id m') \<le> k"
    proof
      assume "m' \<in> set (members d)"
      with wl k show ?thesis by (simp add: within_limits_iff al)
    next
      assume "m' = nm"
      with k nm zero show ?thesis by (simp add: al)
    qed
  qed
qed


lemma create_loan_effect:
  "lending (fst (create_loan e loan d)) = lending d \<or>
   (lending (fst (create_loan e loan d))
      = (members d,
         loan_transactions d @
           [new_loan (next_transaction_id d) (now e) (lc_member_id loan) (lc_book_id loan)
              (lc_staff_id loan) (lc_loan_date loan) (lc_due_date loan) (lc_notes loan)],
         next_member_id d) \<and>
    (case the_member d (lc_member_id loan) of
       None \<Rightarrow> False
     | Some m \<Rightarrow>
         (case max_books_allowed m of
            None \<Rightarrow> False
          | Some limit \<Rightarrow> active_loans d (lc_member_id loan) < limit)))"
  by (simp add: create_loan_unfold lending_def split: option.splits)

lemma return_book_effect:
  "lending (fst (return_book e tid d)) = lending d \<or>
   lending (fst (return_book e tid d))
     = (members d, loans_mark_returned (today e) (now e) tid (loan_transactions d),
        next_member_id d)"
  by (simp add: return_book_unfold lending_def split: option.splits)

lemma create_member_effect:
  "lending (fst (create_member e m d)) = lending d \<or>
   lending (fst (create_member e m d))
     = (members d @ [new_member (next_member_id d) (now e) m], loan_transactions d,
        next_member_id d + 1)"
  unfolding create_member_def lending_except
  by (simp add: lending_def bind_def execute_query_def insert_member_def Let_def
        select_last_insert_id_def return_action_def
      split: option.splits)

lemma update_member_effect:
  "lending (fst (update_member e mid u d)) = lending d \<or>
   lending (fst (update_member e mid u d))
     = (members_set (member_update_fields u) (now e) mid (members d), loan_transactions d,
        next_member_id d)"
  by (simp add: update_member_unfold lending_def split: option.splits)

lemma delete_member_effect:
  "lending (fst (delete_member e mid d)) = lending d \<or>
   lending (fst (delete_member e mid d))
     = (map (\<lambda>m. if member_id m = mid
                   then m\<lparr>is_active := False, member_updated_at := now e\<rparr> else m)
          (members d),
        loan_transactions d, next_member_id d)"
  by (simp add: delete_member_def lending_def bind_def execute_query_def
        select_member_exists_def count_active_loans_of_member_def deactivate_member_def
        raise_def return_action_def
      split: option.splits)


lemma max_after_update:
  "max_books_allowed (fold assign_member (member_update_fields u) m)
   = (case mu_max_books_allowed u of
        Unset \<Rightarrow> max_books_allowed m
      | Null \<Rightarrow> max_books_allowed m
      | Value v \<Rightarrow> Some v)"
proof (cases "mu_max_books_allowed u")
  case (Value v)
  then show ?thesis
    by (simp add: member_update_fields_def update_field_def [of Set_max_books_allowed])
next
  case Unset
  then have "absent (mu_max_books_allowed u)" by (simp add: absent_def)
  moreover have "member_kept u m (fold assign_member (member_update_fields u) m)"
    by (rule fold_assign_member_invariant [where P = "member_kept u m"])
       (simp_all add: member_kept_assign member_kept_refl)
  ultimately show ?thesis using Unset by (simp add: member_kept_def)
next
  case Null
  then have "absent (mu_max_books_allowed u)" by (simp add: absent_def)
  moreover have "member_kept u m (fold assign_member (member_update_fields u) m)"
    by (rule fold_assign_member_invariant [where P = "member_kept u m"])
       (simp_all add: member_kept_assign member_kept_refl)
  ultimately show ?thesis using Null by (simp add: member_kept_def)
qed

lemma id_after_update:
  "member_id (fold assign_member (member_update_fields u) m) = member_id m"
proof -
  have "member_kept u m (fold assign_member (member_update_fields u) m)"
    by (rule fold_assign_member_invariant [where P = "member_kept u m"])
       (simp_all add: member_kept_assign member_kept_refl)
  then show ?thesis by (simp add: member_kept_def)
qed

lemma endpoint_keeps_limits:
  assumes ok: "member_ids_ok d" and wl: "within_limits d" and kl: "keeps_limit r d"
  shows "member_ids_ok (fst (endpoint e r d)) \<and> within_limits (fst (endpoint e r d))"
proof -
  have same: "member_ids_ok d' \<and> within_limits d'" if "lending d' = lending d" for d'
    using lending_cong [OF that] ok wl by simp
  show ?thesis
  proof (cases r)
    case (POST_books b)
    then show ?thesis
      by (simp add: same lending_create_book lending_raise)
  next
    case (PUT_books bid b)
    then show ?thesis
      by (simp add: same lending_update_book lending_raise)
  next
    case (DELETE_books bid)
    then show ?thesis
      by (simp add: same lending_delete_book)
  next
    case (POST_members m)
    show ?thesis
    proof (cases "valid_MemberCreate (today e) m")
      case False
      with POST_members show ?thesis by (simp add: same lending_raise)
    next
      case True
      then have pos: "\<And>k. mc_max_books_allowed m = Some k \<Longrightarrow> 0 \<le> k"
        by (simp add: valid_MemberCreate_def)
      from create_member_effect [of e m d] show ?thesis
      proof
        assume "lending (fst (create_member e m d)) = lending d"
        with POST_members True show ?thesis by (simp add: same)
      next
        assume a: "lending (fst (create_member e m d))
          = (members d @ [new_member (next_member_id d) (now e) m], loan_transactions d,
             next_member_id d + 1)"
        have "member_ids_ok (fst (create_member e m d)) \<and>
              within_limits (fst (create_member e m d))"
          by (rule new_member_keeps_limits [OF ok wl a])
             (simp_all add: new_member_def pos)
        with POST_members True show ?thesis by simp
      qed
    qed
  next
    case (PUT_members mid u)
    show ?thesis
    proof (cases "valid_MemberUpdate u")
      case False
      with PUT_members show ?thesis by (simp add: same lending_raise)
    next
      case True
      from update_member_effect [of e mid u d] show ?thesis
      proof
        assume "lending (fst (update_member e mid u d)) = lending d"
        with PUT_members True show ?thesis by (simp add: same)
      next
        assume a: "lending (fst (update_member e mid u d))
          = (members_set (member_update_fields u) (now e) mid (members d),
             loan_transactions d, next_member_id d)"
        define g where "g = (\<lambda>m. if member_id m = mid
            then (fold assign_member (member_update_fields u) m)\<lparr>member_updated_at := now e\<rparr>
            else m)"
        have a': "lending (fst (update_member e mid u d))
          = (map g (members d), loan_transactions d, next_member_id d)"
          by (simp add: a members_set_def g_def)
        have "member_ids_ok (fst (update_member e mid u d)) \<and>
              within_limits (fst (update_member e mid u d))"
        proof (rule mapped_members_keep_limits [OF ok wl a'])
          fix m
          show "member_id (g m) = member_id m"
            by (simp add: g_def id_after_update)
        next
          fix m k
          assume k: "max_books_allowed (g m) = Some k"
          show "max_books_allowed m = Some k \<or> active_loans d (member_id m) \<le> k"
          proof (cases "member_id m = mid")
            case False
            with k show ?thesis by (simp add: g_def)
          next
            case mid: True
            with k have k': "(case mu_max_books_allowed u of
                Unset \<Rightarrow> max_books_allowed m
              | Null \<Rightarrow> max_books_allowed m
              | Value v \<Rightarrow> Some v) = Some k"
              by (simp add: g_def max_after_update)
            show ?thesis
            proof (cases "mu_max_books_allowed u")
              case (Value v)
              with k' have "v = k" by simp
              with kl PUT_members Value mid show ?thesis
                by (simp add: keeps_limit_def)
            qed (use k' in simp_all)
          qed
        qed
        with PUT_members True show ?thesis by simp
      qed
    qed
  next
    case (DELETE_members mid)
    from delete_member_effect [of e mid d] show ?thesis
    proof
      assume "lending (fst (delete_member e mid d)) = lending d"
      with DELETE_members show ?thesis by (simp add: same)
    next
      assume a: "lending (fst (delete_member e mid d))
        = (map (\<lambda>m. if member_id m = mid
                   then m\<lparr>is_active := False, member_updated_at := now e\<rparr> else m)
             (members d),
           loan_transactions d, next_member_id d)"
      have "member_ids_ok (fst (delete_member e mid d)) \<and>
            within_limits (fst (delete_member e mid d))"
        by (rule mapped_members_keep_limits [OF ok wl a]) (simp_all split: if_splits)
      with DELETE_members show ?thesis by simp
    qed
  next
    case (POST_loans rq)
    show ?thesis
    proof (cases "parse_LoanCreate (today e) rq")
      case (Inl x)
      with POST_loans show ?thesis by (simp add: post_loans_def same lending_raise)
    next
      case (Inr loan)
      from create_loan_effect [of e loan d]
      have "member_ids_ok (fst (create_loan e loan d)) \<and>
            within_limits (fst (create_loan e loan d))"
      proof
        assume "lending (fst (create_loan e loan d)) = lending d"
        then show ?thesis by (rule same)
      next
        assume a: "lending (fst (create_loan e loan d))
            = (members d,
               loan_transactions d @
                 [new_loan (next_transaction_id d) (now e) (lc_member_id loan)
                    (lc_book_id loan) (lc_staff_id loan) (lc_loan_date loan)
                    (lc_due_date loan) (lc_notes loan)],
               next_member_id d) \<and>
          (case the_member d (lc_member_id loan) of
             None \<Rightarrow> False
           | Some m \<Rightarrow>
               (case max_books_allowed m of
                  None \<Rightarrow> False
                | Some limit \<Rightarrow> active_loans d (lc_member_id loan) < limit))"
        then obtain m limit where m: "the_member d (lc_member_id loan) = Some m"
          "max_books_allowed m = Some limit" "active_loans d (lc_member_id loan) < limit"
          by (auto split: option.splits)
        from a have a1: "lending (fst (create_loan e loan d))
            = (members d,
               loan_transactions d @
                 [new_loan (next_transaction_id d) (now e) (lc_member_id loan)
                    (lc_book_id loan) (lc_staff_id loan) (lc_loan_date loan)
                    (lc_due_date loan) (lc_notes loan)],
               next_member_id d)" by simp
        show ?thesis
          by (rule borrow_keeps_limits [OF ok wl m a1]) (simp add: new_loan_def)
      qed
      with POST_loans Inr show ?thesis by (simp add: post_loans_def)
    qed
  next
    case (PUT_loans_return tid)
    from return_book_effect [of e tid d] show ?thesis
    proof
      assume "lending (fst (return_book e tid d)) = lending d"
      with PUT_loans_return show ?thesis by (simp add: same)
    next
      assume a: "lending (fst (return_book e tid d))
        = (members d, loans_mark_returned (today e) (now e) tid (loan_transactions d),
           next_member_id d)"
      from return_keeps_limits [OF ok wl a] PUT_loans_return show ?thesis by simp
    qed
  qed
qed

lemma run_keeps_limits:
  assumes "member_ids_ok d" and "within_limits d" and "limits_kept run d"
  shows "member_ids_ok (serve run d) \<and> within_limits (serve run d)"
  using assms
proof (induction run arbitrary: d)
  case Nil
  then show ?case by simp
next
  case (Cons x run)
  obtain e r where x: "x = (e, r)" by (cases x)
  from Cons.prems(3) x have kl: "keeps_limit r d" "limits_kept run (fst (endpoint e r d))"
    by simp_all
  from endpoint_keeps_limits [OF Cons.prems(1,2) kl(1), of e]
  have "member_ids_ok (fst (endpoint e r d))" "within_limits (fst (endpoint e r d))"
    by simp_all
  from Cons.IH [OF this kl(2)] show ?case by (simp add: x)
qed


lemma create_loan_at_limit:
  assumes "the_member d (lc_member_id loan) = Some m" and "max_books_allowed m = Some limit"
      and "limit \<le> active_loans d (lc_member_id loan)"
  shows "\<exists>x. create_loan e loan d = (d, Inl x)"
  using assms by (simp add: create_loan_unfold split: option.splits)

lemma post_loans_at_limit:
  assumes "the_member d (rq_member_id rq) = Some m" and "max_books_allowed m = Some limit"
      and "limit \<le> active_loans d (rq_member_id rq)"
  shows "\<exists>x. post_loans e rq d = (d, Inl x)"
proof (cases "parse_LoanCreate (today e) rq")
  case (Inl x)
  then show ?thesis by (simp add: post_loans_def raise_def)
next
  case (Inr loan)
  then have "lc_member_id loan = rq_member_id rq"
    by (auto simp: parse_LoanCreate_def Let_def split: if_splits)
  with assms create_loan_at_limit [of d loan m limit e] Inr show ?thesis
    by (simp add: post_loans_def)
qed

lemma post_loans_limit_exceeded:
  assumes m: "the_member d (rq_member_id rq) = Some m" "max_books_allowed m = Some limit"
             "limit \<le> active_loans d (rq_member_id rq)" "is_active m"
      and f: "fault e 0 = None" "fault e 1 = None" "fault e 2 = None"
      and v: "0 < rq_member_id rq" "0 < rq_book_id rq"
             "rq_due_date rq > (case rq_loan_date rq of None \<Rightarrow> today e | Some v \<Rightarrow> v)"
      and b: "copies_available d (rq_book_id rq) = Some c" "0 < c"
  shows "post_loans e rq d = (d, Inl LoanLimitExceeded)"
proof -
  define loan where "loan = \<lparr>lc_member_id = rq_member_id rq, lc_book_id = rq_book_id rq,
      lc_staff_id = rq_staff_id rq,
      lc_loan_date = (case rq_loan_date rq of None \<Rightarrow> today e | Some v \<Rightarrow> v),
      lc_due_date = rq_due_date rq, lc_notes = rq_notes rq\<rparr>"
  from v have p: "post_loans e rq d = create_loan e loan d"
    by (simp add: post_loans_def parse_LoanCreate_def validate_due_date_def loan_def)
  from b obtain bk where bk: "the_book d (rq_book_id rq) = Some bk" "available_copies bk > 0"
    by (auto simp: copies_available_def)
  have ids: "lc_book_id loan = rq_book_id rq" "lc_member_id loan = rq_member_id rq"
    by (simp_all add: loan_def)
  from m(3) have "\<not> active_loans d (rq_member_id rq) < limit" by simp
  from create_loan_checks(5) [OF f, of d loan, unfolded ids, OF bk m(1) m(4) m(2) this]
  show ?thesis by (simp add: p)
qed

text \<open>
  Claim C6, as the handlers have it. Start from a store with well-formed member
  identities in which no member holds more Active loans than \<^verbatim>\<open>max_books_allowed\<close>, and
  serve any run of requests, in any environments, in which no member update sets
  \<^verbatim>\<open>max_books_allowed\<close> below the number of Active loans the member holds at that
  moment. Then no member holds more Active loans than \<^verbatim>\<open>max_books_allowed\<close> at the end.
  In the store reached, a borrow request for a member who holds at least
  \<^verbatim>\<open>max_books_allowed\<close> Active loans always fails and leaves the store as it was, and
  the failure is \<^verbatim>\<open>LoanLimitExceeded\<close> whenever the request is valid, the book has a copy
  left, the member is active and the three look-ups reach the store.
\<close>

theorem loan_limit_kept_unless_lowered:
  assumes "member_ids_ok d" and "within_limits d" and "limits_kept run d"
  shows "within_limits (serve run d) \<and>
         (\<forall>e rq m limit.
            the_member (serve run d) (rq_member_id rq) = Some m \<and>
            max_books_allowed m = Some limit \<and>
            limit \<le> active_loans (serve run d) (rq_member_id rq) \<longrightarrow>
              (\<exists>x. post_loans e rq (serve run d) = (serve run d, Inl x)) \<and>
              (is_active m \<and> fault e 0 = None \<and> fault e 1 = None \<and> fault e 2 = None \<and>
               0 < rq_member_id rq \<and> 0 < rq_book_id rq \<and>
               rq_due_date rq > (case rq_loan_date rq of None \<Rightarrow> today e | Some v \<Rightarrow> v) \<and>
               (\<exists>c. copies_available (serve run d) (rq_book_id rq) = Some c \<and> 0 < c) \<longrightarrow>
                 post_loans e rq (serve run d) = (serve run d, Inl LoanLimitExceeded)))"
proof (intro conjI allI impI)
  from run_keeps_limits [OF assms] show "within_limits (serve run d)" by simp
next
  fix e :: env and rq :: LoanRequest and m :: member and limit :: int
  assume a: "the_member (serve run d) (rq_member_id rq) = Some m \<and>
            max_books_allowed m = Some limit \<and>
            limit \<le> active_loans (serve run d) (rq_member_id rq)"
  then show "\<exists>x. post_loans e rq (serve run d) = (serve run d, Inl x)"
    using post_loans_at_limit by blast
  assume b: "is_active m \<and> fault e 0 = None \<and> fault e 1 = None \<and> fault e 2 = None \<and>
               0 < rq_member_id rq \<and> 0 < rq_book_id rq \<and>
               rq_due_date rq > (case rq_loan_date rq of None \<Rightarrow> today e | Some v \<Rightarrow> v) \<and>
               (\<exists>c. copies_available (serve run d) (rq_book_id rq) = Some c \<and> 0 < c)"
  then obtain c where c: "copies_available (serve run d) (rq_book_id rq) = Some c" "0 < c"
    by blast
  from a b c show "post_loans e rq (serve run d) = (serve run d, Inl LoanLimitExceeded)"
    by (intro post_loans_limit_exceeded [where m = m and limit = limit and c = c]) simp_all
qed


lemma generous_after_two_borrows:
  "serve [(calm, POST_loans borrow_B), (calm, POST_loans borrow_B)] generous_library
   = generous_library
       \<lparr>loan_transactions := [new_loan 1 1000 1 1 None 100 114 None,
                              new_loan 2 1000 1 1 None 100 114 None],
        next_transaction_id := 3,
        books := [book_B\<lparr>available_copies := 1\<rparr>]\<rparr>"
  by (simp add: post_loans_def parse_LoanCreate_def validate_due_date_def create_loan_unfold
        generous_library_def example_defs the_book_def the_member_def active_loans_def
        books_add_copies_def new_loan_def)

lemma generous_limit_set:
  "fst (endpoint calm (PUT_members 1 (no_member_changes\<lparr>mu_max_books_allowed := Value k\<rparr>))
         (generous_library
            \<lparr>loan_transactions := [new_loan 1 1000 1 1 None 100 114 None,
                                   new_loan 2 1000 1 1 None 100 114 None],
             next_transaction_id := 3,
             books := [book_B\<lparr>available_copies := 1\<rparr>]\<rparr>))
   = (if k > 0
      then generous_library
         \<lparr>loan_transactions := [new_loan 1 1000 1 1 None 100 114 None,
                                new_loan 2 1000 1 1 None 100 114 None],
          next_transaction_id := 3,
          books := [book_B\<lparr>available_copies := 1\<rparr>],
          members := [member_M\<lparr>max_books_allowed := Some k, member_updated_at := 1000\<rparr>]\<rparr>
      else generous_library
         \<lparr>loan_transactions := [new_loan 1 1000 1 1 None 100 114 None,
                                new_loan 2 1000 1 1 None 100 114 None],
          next_transaction_id := 3,
          books := [book_B\<lparr>available_copies := 1\<rparr>]\<rparr>)"
  by (simp add: valid_MemberUpdate_def no_member_changes_def update_member_unfold
        generous_library_def example_defs the_member_def member_update_fields_def
        update_field_def members_set_def unique_members_def List.map_filter_def raise_def)

text \<open>
  Claim C6, as stated, fails: \<^verbatim>\<open>update_member\<close> writes \<^verbatim>\<open>max_books_allowed\<close> without
  looking at the loans of the member. A member with a limit of five borrows two books;
  the valid request \<^verbatim>\<open>PUT /api/members/1\<close> with \<^verbatim>\<open>max_books_allowed = 1\<close> is accepted,
  and the member then holds two Active loans under a limit of one.
\<close>

theorem lowered_limit_breaks_loan_limit:
  "valid_MemberUpdate (no_member_changes\<lparr>mu_max_books_allowed := Value 1\<rparr>) \<and>
   within_limits generous_library \<and>
   map max_books_allowed
     (members (serve [(calm, POST_loans borrow_B), (calm, POST_loans borrow_B),
                      (calm, PUT_members 1 (no_member_changes\<lparr>mu_max_books_allowed := Value 1\<rparr>))]
                generous_library)) = [Some 1] \<and>
   active_loans
     (serve [(calm, POST_loans borrow_B), (calm, POST_loans borrow_B),
             (calm, PUT_members 1 (no_member_changes\<lparr>mu_max_books_allowed := Value 1\<rparr>))]
        generous_library) 1 = 2 \<and>
   \<not> within_limits
       (serve [(calm, POST_loans borrow_B), (calm, POST_loans borrow_B),
               (calm, PUT_members 1 (no_member_changes\<lparr>mu_max_books_allowed := Value 1\<rparr>))]
          generous_library)"
proof -
  have s: "serve [(calm, POST_loans borrow_B), (calm, POST_loans borrow_B),
             (calm, PUT_members 1 (no_member_changes\<lparr>mu_max_books_allowed := Value 1\<rparr>))]
        generous_library
     = fst (endpoint calm (PUT_members 1 (no_member_changes\<lparr>mu_max_books_allowed := Value 1\<rparr>))
         (serve [(calm, POST_loans borrow_B), (calm, POST_loans borrow_B)] generous_library))"
    using serve_append [of "[(calm, POST_loans borrow_B), (calm, POST_loans borrow_B)]"
        "[(calm, PUT_members 1 (no_member_changes\<lparr>mu_max_books_allowed := Value 1\<rparr>))]"
        generous_library]
    by simp
  show ?thesis
    unfolding s generous_after_two_borrows generous_limit_set
    by (simp add: valid_MemberUpdate_def no_member_changes_def within_limits_def
          active_loans_def generous_library_def library_def member_M_def new_loan_def)
qed

theorem loan_limit_kept_unless_lowered_witness:
  "within_limits
     (serve [(calm, POST_loans borrow_B), (calm, POST_loans borrow_B),
             (calm, PUT_members 1 (no_member_changes\<lparr>mu_max_books_allowed := Value 2\<rparr>))]
        generous_library) \<and>
   post_loans calm borrow_B
     (serve [(calm, POST_loans borrow_B), (calm, POST_loans borrow_B),
             (calm, PUT_members 1 (no_member_changes\<lparr>mu_max_books_allowed := Value 2\<rparr>))]
        generous_library)
   = (serve [(calm, POST_loans borrow_B), (calm, POST_loans borrow_B),
             (calm, PUT_members 1 (no_member_changes\<lparr>mu_max_books_allowed := Value 2\<rparr>))]
        generous_library, Inl LoanLimitExceeded)"
proof -
  let ?run = "[(calm, POST_loans borrow_B), (calm, POST_loans borrow_B),
             (calm, PUT_members 1 (no_member_changes\<lparr>mu_max_books_allowed := Value 2\<rparr>))]"
  let ?m = "member_M\<lparr>max_books_allowed := Some 2, member_updated_at := 1000\<rparr>"
  have s0: "serve ?run generous_library
     = fst (endpoint calm (PUT_members 1 (no_member_changes\<lparr>mu_max_books_allowed := Value 2\<rparr>))
         (serve [(calm, POST_loans borrow_B), (calm, POST_loans borrow_B)] generous_library))"
    using serve_append [of "[(calm, POST_loans borrow_B), (calm, POST_loans borrow_B)]"
        "[(calm, PUT_members 1 (no_member_changes\<lparr>mu_max_books_allowed := Value 2\<rparr>))]"
        generous_library]
    by simp
  have s: "serve ?run generous_library
     = generous_library
         \<lparr>loan_transactions := [new_loan 1 1000 1 1 None 100 114 None,
                                new_loan 2 1000 1 1 None 100 114 None],
          next_transaction_id := 3,
          books := [book_B\<lparr>available_copies := 1\<rparr>],
          members := [?m]\<rparr>"
    unfolding s0 generous_after_two_borrows generous_limit_set by simp
  have h1: "member_ids_ok generous_library"
    by (simp add: member_ids_ok_def generous_library_def library_def member_M_def)
  have h2: "within_limits generous_library"
    by (simp add: within_limits_def active_loans_def generous_library_def library_def
          member_M_def)
  have k1: "fst (endpoint calm (POST_loans borrow_B) generous_library)
            = serve [(calm, POST_loans borrow_B)] generous_library" by simp
  have k2: "fst (endpoint calm (POST_loans borrow_B)
                   (serve [(calm, POST_loans borrow_B)] generous_library))
            = serve [(calm, POST_loans borrow_B), (calm, POST_loans borrow_B)] generous_library"
    by simp
  have h3: "limits_kept ?run generous_library"
    unfolding limits_kept.simps k1 k2 generous_after_two_borrows
    by (simp add: keeps_limit_def no_member_changes_def active_loans_def generous_library_def
          library_def new_loan_def)
  have a: "the_member (serve ?run generous_library) (rq_member_id borrow_B) = Some ?m"
    "max_books_allowed ?m = Some 2"
    "2 \<le> active_loans (serve ?run generous_library) (rq_member_id borrow_B)"
    "is_active ?m" "fault calm 0 = None" "fault calm 1 = None" "fault calm 2 = None"
    "0 < rq_member_id borrow_B" "0 < rq_book_id borrow_B"
    "rq_due_date borrow_B
       > (case rq_loan_date borrow_B of None \<Rightarrow> today calm | Some v \<Rightarrow> v)"
    "copies_available (serve ?run generous_library) (rq_book_id borrow_B) = Some 1"
    unfolding s
    by (simp_all add: the_member_def active_loans_def copies_available_def the_book_def
          generous_library_def example_defs new_loan_def)
  from loan_limit_kept_unless_lowered [OF h1 h2 h3] a
  show ?thesis by (metis zero_less_one)
qed

subsection \<open>Replies that no request obtains\<close>

lemma create_loan_reply_data:
  assumes "create_loan e loan d = (d', Inr v)"
  shows "data v = None"
proof -
  from assms
  have "v = \<lparr>success = True, message = ''Book loan created successfully'', data = None\<rparr>"
    unfolding create_loan_unfold by (simp split: option.splits if_splits)
  then show ?thesis by simp
qed

text \<open>The replies the handler bodies can produce: a result, a gateway error or a
  \<^verbatim>\<open>KeyError\<close>; never a bare \<^verbatim>\<open>IntegrityError\<close>.\<close>

lemma gateway_error_is_500: "\<exists>detail. gateway_error x = HTTPException 500 detail"
  by (cases x) simp_all

lemma execute_query_reply:
  "(\<exists>v. snd (execute_query flt q d) = Inr v) \<or>
   (\<exists>detail. snd (execute_query flt q d) = Inl (HTTPException 500 detail))"
proof (cases flt)
  case (Some x)
  with gateway_error_is_500 [of x] show ?thesis by (auto simp: execute_query_def)
next
  case None
  show ?thesis
  proof (cases "q d")
    case (Inl x)
    with None gateway_error_is_500 [of x] show ?thesis by (auto simp: execute_query_def)
  next
    case (Inr p)
    with None show ?thesis by (cases p) (simp add: execute_query_def)
  qed
qed

lemma execute_transaction_reply:
  "(\<exists>v. snd (execute_transaction flt qs d) = Inr v) \<or>
   (\<exists>detail. snd (execute_transaction flt qs d) = Inl (HTTPException 500 detail))"
proof (cases flt)
  case (Some x)
  with gateway_error_is_500 [of x] show ?thesis by (auto simp: execute_transaction_def)
next
  case None
  show ?thesis
  proof (cases "run_statements qs d")
    case (Inl x)
    with None gateway_error_is_500 [of x] show ?thesis by (auto simp: execute_transaction_def)
  next
    case (Inr p)
    with None show ?thesis by (cases p) (simp add: execute_transaction_def)
  qed
qed

lemma bind_no_integrity:
  assumes "\<And>d msg. snd (m d) \<noteq> Inl (IntegrityError msg)"
      and "\<And>v d msg. snd (f v d) \<noteq> Inl (IntegrityError msg)"
  shows "snd (bind m f d) \<noteq> Inl (IntegrityError msg)"
proof (cases "m d")
  case (Pair d' res)
  show ?thesis
  proof (cases res)
    case (Inl x)
    with Pair assms(1) [of d msg] show ?thesis by (simp add: bind_def)
  next
    case (Inr v)
    with Pair assms(2) [of v d' msg] show ?thesis by (simp add: bind_def)
  qed
qed

lemma execute_query_no_integrity:
  "snd (execute_query flt q d) \<noteq> Inl (IntegrityError msg)"
  using execute_query_reply [of flt q d] by auto

lemma execute_transaction_no_integrity:
  "snd (execute_transaction flt qs d) \<noteq> Inl (IntegrityError msg)"
  using execute_transaction_reply [of flt qs d] by auto

lemma insert_authors_no_integrity:
  "snd (insert_authors e k bid entries d) \<noteq> Inl (IntegrityError msg)"
proof (induction entries arbitrary: k d msg)
  case Nil
  show ?case by (simp add: return_action_def)
next
  case (Cons entry entries)
  obtain author_id role where entry: "entry = (author_id, role)" by (cases entry)
  show ?case
  proof (cases author_id)
    case None
    with entry show ?thesis by (simp add: raise_def)
  next
    case (Some aid)
    have "snd (bind (execute_query (fault e k)
                  (insert_book_author bid aid
                     (case role of None \<Rightarrow> ''Primary Author'' | Some r \<Rightarrow> r)))
                (\<lambda>inserted. insert_authors e (Suc k) bid entries) d)
          \<noteq> Inl (IntegrityError msg)"
      by (rule bind_no_integrity) (simp_all add: execute_query_no_integrity Cons.IH)
    with Some entry show ?thesis by simp
  qed
qed

lemma except_IntegrityError_idle:
  assumes "\<And>msg. snd (body d) \<noteq> Inl (IntegrityError msg)"
  shows "except_IntegrityError body handler d = body d"
proof (cases "body d")
  case (Pair d' res)
  show ?thesis
  proof (cases res)
    case (Inl x)
    show ?thesis
    proof (cases x)
      case (IntegrityError msg)
      with Pair Inl assms [of msg] show ?thesis by simp
    qed (simp_all add: Pair Inl except_IntegrityError_def)
  next
    case (Inr v)
    with Pair show ?thesis by (simp add: except_IntegrityError_def)
  qed
qed

lemma create_book_handler_idle:
  "create_book e book d =
     (let copies = (case bc_available_copies book of
                      None \<Rightarrow> bc_total_copies book
                    | Some v \<Rightarrow> v) in
      bind (execute_transaction (fault e 0) [insert_book (now e) book copies]) (\<lambda>results.
      bind (execute_query (fault e 1) (select_last_insert_id e)) (\<lambda>new_id.
      bind (if bc_authors book \<noteq> [] then insert_authors e 2 new_id (bc_authors book)
            else return_action ()) (\<lambda>done.
      return_action \<lparr>success = True, message = ''Book created successfully'',
                      data = Some [(''book_id'', new_id)]\<rparr>)))) d"
  unfolding create_book_def Let_def
  by (rule except_IntegrityError_idle)
     (intro bind_no_integrity execute_transaction_no_integrity execute_query_no_integrity;
      simp add: insert_authors_no_integrity return_action_def)

lemma create_member_handler_idle:
  "create_member e m d =
     bind (execute_query (fault e 0) (insert_member (now e) m)) (\<lambda>inserted.
     bind (execute_query (fault e 1) (select_last_insert_id e)) (\<lambda>new_id.
     return_action \<lparr>success = True, message = ''Member created successfully'',
                     data = Some [(''member_id'', new_id)]\<rparr>)) d"
  unfolding create_member_def
  by (rule except_IntegrityError_idle)
     (intro bind_no_integrity execute_query_no_integrity; simp add: return_action_def)


lemma bind_not_409:
  assumes "\<And>d. http_status 201 (snd (m d)) \<noteq> 409"
      and "\<And>v d. http_status 201 (snd (f v d)) \<noteq> 409"
  shows "http_status 201 (snd (bind m f d)) \<noteq> 409"
proof (cases "m d")
  case (Pair d' res)
  show ?thesis
  proof (cases res)
    case (Inl x)
    with Pair assms(1) [of d] show ?thesis by (simp add: bind_def http_status_def)
  next
    case (Inr v)
    with Pair assms(2) [of v d'] show ?thesis by (simp add: bind_def)
  qed
qed

lemma execute_query_not_409: "http_status 201 (snd (execute_query flt q d)) \<noteq> 409"
  using execute_query_reply [of flt q d] by (auto simp: http_status_def)

lemma execute_transaction_not_409:
  "http_status 201 (snd (execute_transaction flt qs d)) \<noteq> 409"
  using execute_transaction_reply [of flt qs d] by (auto simp: http_status_def)

lemma insert_authors_not_409:
  "http_status 201 (snd (insert_authors e k bid entries d)) \<noteq> 409"
proof (induction entries arbitrary: k d)
  case Nil
  show ?case by (simp add: return_action_def http_status_def)
next
  case (Cons entry entries)
  obtain author_id role where entry: "entry = (author_id, role)" by (cases entry)
  show ?case
  proof (cases author_id)
    case None
    with entry show ?thesis by (simp add: raise_def http_status_def)
  next
    case (Some aid)
    have "http_status 201 (snd (bind (execute_query (fault e k)
                  (insert_book_author bid aid
                     (case role of None \<Rightarrow> ''Primary Author'' | Some r \<Rightarrow> r)))
                (\<lambda>inserted. insert_authors e (Suc k) bid entries) d)) \<noteq> 409"
      by (rule bind_not_409) (simp_all add: execute_query_not_409 Cons.IH)
    with Some entry show ?thesis by simp
  qed
qed

lemma conflict_status_unreachable:
  "http_status 201 (snd (create_book e book d)) \<noteq> 409"
  "http_status 201 (snd (create_member e m d)) \<noteq> 409"
proof -
  show "http_status 201 (snd (create_book e book d)) \<noteq> 409"
    unfolding create_book_handler_idle Let_def
    by (intro bind_not_409 execute_transaction_not_409 execute_query_not_409;
        simp add: insert_authors_not_409 [unfolded http_status_def] return_action_def
          http_status_def)
  show "http_status 201 (snd (create_member e m d)) \<noteq> 409"
    unfolding create_member_handler_idle
    by (intro bind_not_409 execute_query_not_409; simp add: return_action_def http_status_def)
qed

end
